theory Spec2Isabelle
  imports Complex_Main "HOL-Library.AList"
begin

section \<open>Tensors\<close>

text \<open>
  The repository works on two-dimensional torch tensors of floating-point numbers. They are
  modelled as rectangular lists of rows over the reals: rounding, infinities and NaN are
  outside the model, and every arithmetic fact below is a fact of the exact arithmetic that
  the floating-point code approximates. A tensor with no row is the empty list, so its column
  count reads as 0.
\<close>

datatype error =
    AttributeError
  | RuntimeError
  | ZeroDivisionError
  | KeyError
  | IndexError
  | NotInitialized

datatype device = Cpu | Cuda

type_synonym mat = "real list list"

definition nrows :: "mat \<Rightarrow> nat" where
  "nrows M = length M"

definition ncols :: "mat \<Rightarrow> nat" where
  "ncols M = (case M of [] \<Rightarrow> 0 | r # _ \<Rightarrow> length r)"

definition has_shape :: "nat \<Rightarrow> nat \<Rightarrow> mat \<Rightarrow> bool" where
  "has_shape r c M = (length M = r \<and> list_all (\<lambda>row. length row = c) M)"

text \<open>\<^verbatim>\<open>torch.zeros((r, c))\<close> and \<^verbatim>\<open>torch.full((r, c), v)\<close>.\<close>

definition full :: "nat \<Rightarrow> nat \<Rightarrow> real \<Rightarrow> mat" where
  "full r c v = replicate r (replicate c v)"

definition zeros :: "nat \<Rightarrow> nat \<Rightarrow> mat" where
  "zeros r c = full r c 0"

text \<open>
  \<^verbatim>\<open>torch.add\<close>, \<^verbatim>\<open>torch.sub\<close> and \<^verbatim>\<open>torch.mul\<close> of two tensors, elementwise. Every
  call in the source is on buffers of one shape, where torch does not broadcast.
\<close>

definition t_add :: "mat \<Rightarrow> mat \<Rightarrow> mat" where
  "t_add A B = map2 (map2 (+)) A B"

definition t_sub :: "mat \<Rightarrow> mat \<Rightarrow> mat" where
  "t_sub A B = map2 (map2 (-)) A B"

definition t_mul :: "mat \<Rightarrow> mat \<Rightarrow> mat" where
  "t_mul A B = map2 (map2 (*)) A B"

text \<open>\<^verbatim>\<open>torch.mul(A, k)\<close> and \<^verbatim>\<open>A / k\<close> with a Python scalar \<open>k\<close>.\<close>

definition t_scale :: "mat \<Rightarrow> real \<Rightarrow> mat" where
  "t_scale A k = map (map (\<lambda>x. x * k)) A"

definition t_div :: "mat \<Rightarrow> real \<Rightarrow> mat" where
  "t_div A k = map (map (\<lambda>x. x / k)) A"

text \<open>
  The slice assignment \<^verbatim>\<open>dst[:, :] = src\<close> copies \<open>src\<close> into the storage of \<open>dst\<close>. torch
  broadcasts a dimension of size 1 of \<open>src\<close> and raises \<^verbatim>\<open>RuntimeError\<close> on any other
  mismatch; the shape of \<open>dst\<close> never changes.
\<close>

definition expand_to :: "nat \<Rightarrow> nat \<Rightarrow> mat \<Rightarrow> error + mat" where
  "expand_to r c M =
     (if (nrows M = r \<or> nrows M = 1) \<and> (ncols M = c \<or> ncols M = 1)
      then Inr (map (\<lambda>i. map (\<lambda>j. M ! (if nrows M = 1 then 0 else i)
                                     ! (if ncols M = 1 then 0 else j)) [0..<c]) [0..<r])
      else Inl RuntimeError)"

definition assign_all :: "mat \<Rightarrow> mat \<Rightarrow> error + mat" where
  "assign_all dst src = expand_to (nrows dst) (ncols dst) src"

text \<open>Sequencing of calls that may raise: the first exception ends the computation.\<close>

definition and_then :: "error + 'a \<Rightarrow> ('a \<Rightarrow> error + 'b) \<Rightarrow> error + 'b" where
  "and_then m f = (case m of Inl e \<Rightarrow> Inl e | Inr x \<Rightarrow> f x)"

section \<open>FirstOrderFilter\<close>

record filter =
  fo_dt :: real
  fo_rows :: nat
  fo_cols :: nat
  fo_device :: device
  fo_filter_BW :: real
  fo_gain :: real
  yk :: mat
  ykm1 :: mat
  refk :: mat
  refkm1 :: mat
  kh2 :: real
  coeff_ref :: real
  coeff_km1 :: real

text \<open>
  \<^verbatim>\<open>FirstOrderFilter.__init__\<close>. The coefficients are Python floats, and Python raises
  \<^verbatim>\<open>ZeroDivisionError\<close> on a float division by zero.
\<close>

definition FirstOrderFilter :: "real \<Rightarrow> real \<Rightarrow> nat \<Rightarrow> nat \<Rightarrow> device \<Rightarrow> error + filter" where
  "FirstOrderFilter dt filter_BW rows cols dev =
     (let gain = 2 * pi * filter_BW;
          k = gain * dt / 2
      in if 1 + k = 0 then Inl ZeroDivisionError
         else Inr \<lparr> fo_dt = dt, fo_rows = rows, fo_cols = cols, fo_device = dev,
                    fo_filter_BW = filter_BW, fo_gain = gain,
                    yk = zeros rows cols, ykm1 = zeros rows cols,
                    refk = zeros rows cols, refkm1 = zeros rows cols,
                    kh2 = k,
                    coeff_ref = k * 1 / (1 + k),
                    coeff_km1 = (1 - k) / (1 + k) \<rparr>)"

text \<open>\<^verbatim>\<open>FirstOrderFilter.update\<close>; the argument is \<open>None\<close> when the caller passes no reference.\<close>

definition fo_update :: "filter \<Rightarrow> mat option \<Rightarrow> error + filter" where
  "fo_update f r =
     and_then (case r of None \<Rightarrow> Inr (refk f) | Some x \<Rightarrow> assign_all (refk f) x) (\<lambda>rk.
     and_then (assign_all (yk f)
                 (t_add (t_scale (ykm1 f) (coeff_km1 f))
                        (t_scale (t_add rk (refkm1 f)) (coeff_ref f)))) (\<lambda>y.
     and_then (assign_all (refkm1 f) rk) (\<lambda>rkm1.
     and_then (assign_all (ykm1 f) y) (\<lambda>ym1.
     Inr (f\<lparr> refk := rk, yk := y, refkm1 := rkm1, ykm1 := ym1 \<rparr>)))))"

text \<open>\<^verbatim>\<open>FirstOrderFilter.reset\<close> and \<^verbatim>\<open>FirstOrderFilter.get\<close>.\<close>

definition fo_reset :: "filter \<Rightarrow> error + filter" where
  "fo_reset f =
     and_then (assign_all (yk f) (zeros (fo_rows f) (fo_cols f))) (\<lambda>y.
     and_then (assign_all (ykm1 f) (zeros (fo_rows f) (fo_cols f))) (\<lambda>ym1.
     and_then (assign_all (refk f) (zeros (fo_rows f) (fo_cols f))) (\<lambda>rk.
     and_then (assign_all (refkm1 f) (zeros (fo_rows f) (fo_cols f))) (\<lambda>rkm1.
     Inr (f\<lparr> yk := y, ykm1 := ym1, refk := rk, refkm1 := rkm1 \<rparr>)))))"

definition fo_get :: "filter \<Rightarrow> mat" where
  "fo_get f = yk f"

text \<open>A run of the filter: one call of \<^verbatim>\<open>update\<close> per reference of the sequence.\<close>

fun fo_run :: "filter \<Rightarrow> mat list \<Rightarrow> error + filter" where
  "fo_run f [] = Inr f"
| "fo_run f (r # rs) = and_then (fo_update f (Some r)) (\<lambda>f'. fo_run f' rs)"

section \<open>OmniJntImpCntrl: data\<close>

datatype IndxState = NONE | VALID | INVALID

datatype dtype = Int64 | Int32 | Int16 | Int8 | UInt8

text \<open>
  An index tensor as a caller may pass it: its shape, element type, device and its elements in
  storage order. Only integer element types are modelled.
\<close>

record index_tensor =
  i_shape :: "nat list"
  i_dtype :: dtype
  i_device :: device
  i_vals :: "int list"

text \<open>A two-dimensional signal tensor and the device it lives on.\<close>

record signal =
  s_device :: device
  s_data :: mat

text \<open>
  The articulation collaborator: what the constructor reads from it, and the commands the
  controller has issued to it so far, oldest first.
\<close>

record articulation =
  initialized :: bool
  count :: nat
  num_dof :: nat
  dof_names :: "string list"

datatype art_cmd =
    SetGains "mat option" "mat option"
  | SetJointEfforts mat
  | SetJointPositionTargets mat
  | SetJointVelocityTargets mat

text \<open>
  The tuple of grids that \<^verbatim>\<open>torch.meshgrid((R, J), indexing="ij")\<close> returns is determined by
  the two index vectors: both grids have shape \<open>[|R|, |J|]\<close>, and at cell \<open>(i, j)\<close> the first
  holds \<open>R ! i\<close> and the second \<open>J ! j\<close>. A selector is kept as that pair of vectors.
\<close>

type_synonym selector = "int list \<times> int list"

definition meshgrid :: "int list \<Rightarrow> int list \<Rightarrow> selector" where
  "meshgrid R J = (R, J)"

definition selector_shape :: "selector \<Rightarrow> nat \<times> nat" where
  "selector_shape sel = (length (fst sel), length (snd sel))"

record controller =
  override_art_controller :: bool
  init_on_creation :: bool
  gains_initialized :: bool
  refs_initialized :: bool
  default_pgain :: real
  default_vgain :: real
  filter_BW :: real
  filter_dt :: "real option"
  articulation_view :: "art_cmd list"
  c_device :: device
  num_robots :: nat
  n_dofs :: nat
  jnts_names :: "string list"
  filter_available :: bool
  pos_ref_filter :: "filter option"
  vel_ref_filter :: "filter option"
  eff_ref_filter :: "filter option"
  pos_gains :: mat
  vel_gains :: mat
  eff_ref :: mat
  pos_ref :: mat
  vel_ref :: mat
  pos_err :: mat
  vel_err :: mat
  pos :: mat
  vel :: mat
  eff :: mat
  imp_eff :: mat

definition valid_signal_types :: "string list" where
  "valid_signal_types =
     [''pos_ref'', ''vel_ref'', ''eff_ref'', ''pos'', ''vel'', ''eff'', ''pgain'', ''vgain'']"

text \<open>A call on the articulation view is recorded at the end of the log.\<close>

definition art_call :: "controller \<Rightarrow> art_cmd \<Rightarrow> controller" where
  "art_call c cmd = c\<lparr> articulation_view := articulation_view c @ [cmd] \<rparr>"

section \<open>OmniJntImpCntrl: selectors\<close>

text \<open>
  One of the two blocks of \<^verbatim>\<open>_validate_selectors\<close>, for the index tensor of one axis and the
  size of that axis. \<^verbatim>\<open>torch.min\<close> and \<^verbatim>\<open>torch.max\<close> raise on a tensor without elements;
  the sanity test reaches them when the earlier conjuncts hold, and the diagnostic of the
  other branch evaluates them in any case.
\<close>

definition check_indxs :: "device \<Rightarrow> nat \<Rightarrow> index_tensor option \<Rightarrow> error + IndxState" where
  "check_indxs dev bound indxs =
     (case indxs of
        None \<Rightarrow> Inr NONE
      | Some t \<Rightarrow>
          if i_vals t = [] then Inl RuntimeError
          else if \<not> (length (i_shape t) = 1 \<and>
                      i_dtype t = Int64 \<and>
                      i_device t = dev \<and>
                      0 \<le> Min (set (i_vals t)) \<and>
                      Max (set (i_vals t)) < int bound)
               then Inr INVALID
               else Inr VALID)"

definition validate_selectors ::
  "controller \<Rightarrow> index_tensor option \<Rightarrow> index_tensor option \<Rightarrow> error + IndxState \<times> IndxState" where
  "validate_selectors c robot_indxs jnt_indxs =
     and_then (check_indxs (c_device c) (num_robots c) robot_indxs) (\<lambda>check0.
     and_then (check_indxs (c_device c) (n_dofs c) jnt_indxs) (\<lambda>check1.
     Inr (check0, check1)))"

text \<open>
  \<^verbatim>\<open>_gen_selector\<close>: three tests in sequence, each overwriting the selector when it holds.
  A branch is only entered with the index tensors it reads present.
\<close>

definition gen_selector ::
  "controller \<Rightarrow> index_tensor option \<Rightarrow> index_tensor option \<Rightarrow> error + selector option" where
  "gen_selector c robot_indxs jnt_indxs =
     and_then (validate_selectors c robot_indxs jnt_indxs) (\<lambda>indxs_check.
       let selector0 = None;
           selector1 =
             (if fst indxs_check = VALID \<and> snd indxs_check = VALID
              then Some (meshgrid (i_vals (the robot_indxs)) (i_vals (the jnt_indxs)))
              else selector0);
           selector2 =
             (if fst indxs_check = VALID \<and> snd indxs_check = NONE
              then Some (meshgrid (i_vals (the robot_indxs)) (map int [0..<n_dofs c]))
              else selector1);
           selector3 =
             (if fst indxs_check = NONE \<and> snd indxs_check = VALID
              then Some (meshgrid (map int [0..<num_robots c]) (i_vals (the jnt_indxs)))
              else selector2)
       in Inr selector3)"

text \<open>
  \<^verbatim>\<open>_validate_signal\<close>. Reading \<^verbatim>\<open>signal.shape\<close> of \<open>None\<close> raises \<^verbatim>\<open>AttributeError\<close>.
\<close>

definition validate_signal ::
  "controller \<Rightarrow> signal option \<Rightarrow> selector option \<Rightarrow> error + bool" where
  "validate_signal c sig sel =
     (case sig of
        None \<Rightarrow> Inl AttributeError
      | Some s \<Rightarrow>
          (case sel of
             None \<Rightarrow>
               Inr (nrows (s_data s) = num_robots c \<and>
                    ncols (s_data s) = n_dofs c \<and>
                    s_device s = c_device c)
           | Some g \<Rightarrow>
               Inr (nrows (s_data s) = fst (selector_shape g) \<and>
                    ncols (s_data s) = snd (selector_shape g) \<and>
                    s_device s = c_device c)))"

section \<open>OmniJntImpCntrl: writing signals\<close>

definition put_cell :: "mat \<Rightarrow> nat \<Rightarrow> nat \<Rightarrow> real \<Rightarrow> mat" where
  "put_cell b r k v = b[r := (b ! r)[k := v]]"

text \<open>torch reads a negative index from the end of the axis.\<close>

definition norm_idx :: "nat \<Rightarrow> int \<Rightarrow> nat" where
  "norm_idx n i = nat (if i < 0 then i + int n else i)"

text \<open>
  The indexed assignment \<^verbatim>\<open>buf[selector] = src\<close> with the grids of a selector: cell
  \<open>(R ! i, J ! j)\<close> of the buffer receives cell \<open>(i, j)\<close> of the source, broadcast to the shape
  of the grids. An index outside the buffer raises \<^verbatim>\<open>IndexError\<close>. The cells are written in
  row-major order of the grids; torch leaves the order open when an index repeats.
\<close>

definition index_put :: "mat \<Rightarrow> selector \<Rightarrow> mat \<Rightarrow> error + mat" where
  "index_put buf sel src =
     (if list_all (\<lambda>r. - int (nrows buf) \<le> r \<and> r < int (nrows buf)) (fst sel) \<and>
         list_all (\<lambda>k. - int (ncols buf) \<le> k \<and> k < int (ncols buf)) (snd sel)
      then and_then (expand_to (length (fst sel)) (length (snd sel)) src) (\<lambda>v.
             Inr (fold (\<lambda>(i, j) b. put_cell b (norm_idx (nrows buf) (fst sel ! i))
                                              (norm_idx (ncols buf) (snd sel ! j))
                                              (v ! i ! j))
                       (List.product [0..<length (fst sel)] [0..<length (snd sel)])
                       buf))
      else Inl IndexError)"

text \<open>The two forms of assignment of \<^verbatim>\<open>_assign_signal\<close>, on one buffer.\<close>

definition assign_to :: "mat \<Rightarrow> signal \<Rightarrow> selector option \<Rightarrow> error + mat" where
  "assign_to buf s sel =
     (case sel of
        Some g \<Rightarrow> index_put buf g (s_data s)
      | None \<Rightarrow> assign_all buf (s_data s))"

text \<open>
  \<^verbatim>\<open>_assign_signal\<close>. A tag of the list always meets one of the eight tests; the last branch
  stands for the end of the method, which returns \<open>None\<close>, read as false by the callers.
\<close>

definition assign_signal ::
  "controller \<Rightarrow> string \<Rightarrow> signal \<Rightarrow> selector option \<Rightarrow> error + bool \<times> controller" where
  "assign_signal c signal_type s sel =
     (if signal_type \<in> set valid_signal_types then
        if signal_type = valid_signal_types ! 0 then
          and_then (assign_to (pos_ref c) s sel) (\<lambda>b. Inr (True, c\<lparr> pos_ref := b \<rparr>))
        else if signal_type = valid_signal_types ! 1 then
          and_then (assign_to (vel_ref c) s sel) (\<lambda>b. Inr (True, c\<lparr> vel_ref := b \<rparr>))
        else if signal_type = valid_signal_types ! 2 then
          and_then (assign_to (eff_ref c) s sel) (\<lambda>b. Inr (True, c\<lparr> eff_ref := b \<rparr>))
        else if signal_type = valid_signal_types ! 3 then
          and_then (assign_to (pos c) s sel) (\<lambda>b. Inr (True, c\<lparr> pos := b \<rparr>))
        else if signal_type = valid_signal_types ! 4 then
          and_then (assign_to (vel c) s sel) (\<lambda>b. Inr (True, c\<lparr> vel := b \<rparr>))
        else if signal_type = valid_signal_types ! 5 then
          and_then (assign_to (eff c) s sel) (\<lambda>b. Inr (True, c\<lparr> eff := b \<rparr>))
        else if signal_type = valid_signal_types ! 6 then
          and_then (assign_to (pos_gains c) s sel) (\<lambda>b. Inr (True, c\<lparr> pos_gains := b \<rparr>))
        else if signal_type = valid_signal_types ! 7 then
          and_then (assign_to (vel_gains c) s sel) (\<lambda>b. Inr (True, c\<lparr> vel_gains := b \<rparr>))
        else Inr (False, c)
      else Inr (False, c))"

section \<open>OmniJntImpCntrl: initialisation and reset\<close>

definition initialize_gains :: "controller \<Rightarrow> controller" where
  "initialize_gains c =
     (if \<not> gains_initialized c then
        (if \<not> override_art_controller c
         then art_call c (SetGains (Some (pos_gains c)) (Some (vel_gains c)))
         else (let no_gains = zeros (num_robots c) (n_dofs c)
               in art_call c (SetGains (Some no_gains) (Some no_gains))))
        \<lparr> gains_initialized := True \<rparr>
      else c)"

definition initialize_refs :: "controller \<Rightarrow> controller" where
  "initialize_refs c =
     (if \<not> refs_initialized c then
        (if \<not> override_art_controller c
         then art_call (art_call (art_call c
                (SetJointEfforts (eff_ref c)))
                (SetJointPositionTargets (pos_ref c)))
                (SetJointVelocityTargets (vel_ref c))
         else art_call c (SetJointEfforts (eff_ref c)))
        \<lparr> refs_initialized := True \<rparr>
      else c)"

text \<open>The filter bank that the constructor and \<^verbatim>\<open>reset\<close> build when a filter period is set.\<close>

definition new_filter :: "controller \<Rightarrow> real \<Rightarrow> error + filter" where
  "new_filter c dt = FirstOrderFilter dt (filter_BW c) (num_robots c) (n_dofs c) (c_device c)"

definition reset :: "controller \<Rightarrow> error + controller" where
  "reset c =
     (let c1 = c\<lparr> gains_initialized := False,
                  refs_initialized := False,
                  pos_gains := full (num_robots c) (n_dofs c) (default_pgain c),
                  vel_gains := full (num_robots c) (n_dofs c) (default_vgain c),
                  eff_ref := zeros (num_robots c) (n_dofs c),
                  pos_ref := zeros (num_robots c) (n_dofs c),
                  vel_ref := zeros (num_robots c) (n_dofs c),
                  pos_err := zeros (num_robots c) (n_dofs c),
                  vel_err := zeros (num_robots c) (n_dofs c),
                  pos := zeros (num_robots c) (n_dofs c),
                  vel := zeros (num_robots c) (n_dofs c),
                  eff := zeros (num_robots c) (n_dofs c),
                  imp_eff := zeros (num_robots c) (n_dofs c) \<rparr>
      in and_then
           (case filter_dt c1 of
              None \<Rightarrow> Inr c1
            | Some dt \<Rightarrow>
                and_then (new_filter c1 dt) (\<lambda>pf.
                and_then (new_filter c1 dt) (\<lambda>vf.
                and_then (new_filter c1 dt) (\<lambda>ef.
                and_then (fo_reset pf) (\<lambda>pf'.
                and_then (fo_reset vf) (\<lambda>vf'.
                and_then (fo_reset ef) (\<lambda>ef'.
                Inr (c1\<lparr> pos_ref_filter := Some pf',
                         vel_ref_filter := Some vf',
                         eff_ref_filter := Some ef' \<rparr>))))))))
           (\<lambda>c2. if init_on_creation c2
                  then Inr (initialize_refs (initialize_gains c2))
                  else Inr c2))"

text \<open>
  \<^verbatim>\<open>OmniJntImpCntrl.__init__\<close>, with the arguments in the order of the source; the backend
  argument only selects a message. The buffers are \<open>None\<close> until \<^verbatim>\<open>reset\<close>, the last statement
  of the constructor, allocates them, so no constructed controller has an unallocated buffer.
\<close>

definition OmniJntImpCntrl ::
  "articulation \<Rightarrow> real \<Rightarrow> real \<Rightarrow> device \<Rightarrow> real \<Rightarrow> real option \<Rightarrow> bool \<Rightarrow> bool \<Rightarrow>
     error + controller" where
  "OmniJntImpCntrl art dflt_pgain dflt_vgain dev bw dt override init_on_create =
     (if \<not> initialized art then Inl NotInitialized
      else
        (let c0 = \<lparr> override_art_controller = override,
                    init_on_creation = init_on_create,
                    gains_initialized = False,
                    refs_initialized = False,
                    default_pgain = dflt_pgain,
                    default_vgain = dflt_vgain,
                    filter_BW = bw,
                    filter_dt = dt,
                    articulation_view = [],
                    c_device = dev,
                    num_robots = count art,
                    n_dofs = num_dof art,
                    jnts_names = dof_names art,
                    filter_available = False,
                    pos_ref_filter = None,
                    vel_ref_filter = None,
                    eff_ref_filter = None,
                    pos_gains = [], vel_gains = [], eff_ref = [], pos_ref = [], vel_ref = [],
                    pos_err = [], vel_err = [], pos = [], vel = [], eff = [], imp_eff = [] \<rparr>
         in and_then
              (case dt of
                 None \<Rightarrow> Inr c0
               | Some d \<Rightarrow>
                   and_then (new_filter c0 d) (\<lambda>pf.
                   and_then (new_filter c0 d) (\<lambda>vf.
                   and_then (new_filter c0 d) (\<lambda>ef.
                   Inr (c0\<lparr> pos_ref_filter := Some pf,
                            vel_ref_filter := Some vf,
                            eff_ref_filter := Some ef,
                            filter_available := True \<rparr>)))))
              reset))"

section \<open>OmniJntImpCntrl: setters\<close>

text \<open>
  The block that \<^verbatim>\<open>update_state\<close> and \<^verbatim>\<open>set_refs\<close> repeat for each of their three signals:
  \<open>k\<close> is the position of the signal's flag, \<open>ka\<close> the position of the assignment flag.
\<close>

definition signal_block ::
  "string \<Rightarrow> nat \<Rightarrow> nat \<Rightarrow> signal option \<Rightarrow> selector option \<Rightarrow> bool list \<times> controller \<Rightarrow>
     error + bool list \<times> controller" where
  "signal_block signal_type k ka sig selector st =
     (case sig of
        None \<Rightarrow> Inr st
      | Some s \<Rightarrow>
          and_then (validate_signal (snd st) (Some s) selector) (\<lambda>valid.
            if valid then
              and_then (assign_signal (snd st) signal_type s selector) (\<lambda>r.
                if \<not> fst r then Inr ((fst st)[ka := False], snd r)
                else Inr (fst st, snd r))
            else Inr ((fst st)[k := False], snd st)))"

definition update_state ::
  "controller \<Rightarrow> signal option \<Rightarrow> signal option \<Rightarrow> signal option \<Rightarrow>
     index_tensor option \<Rightarrow> index_tensor option \<Rightarrow> error + bool list \<times> controller" where
  "update_state c pos_sig vel_sig eff_sig robot_indxs jnt_indxs =
     and_then (gen_selector c robot_indxs jnt_indxs) (\<lambda>selector.
     and_then (signal_block ''pos'' 0 3 pos_sig selector ([True, True, True, True], c)) (\<lambda>st1.
     and_then (signal_block ''vel'' 1 3 vel_sig selector st1) (\<lambda>st2.
     signal_block ''eff'' 2 3 eff_sig selector st2)))"

definition set_refs ::
  "controller \<Rightarrow> signal option \<Rightarrow> signal option \<Rightarrow> signal option \<Rightarrow>
     index_tensor option \<Rightarrow> index_tensor option \<Rightarrow> error + bool list \<times> controller" where
  "set_refs c eff_ref_sig pos_ref_sig vel_ref_sig robot_indxs jnt_indxs =
     and_then (gen_selector c robot_indxs jnt_indxs) (\<lambda>selector.
     and_then (signal_block ''eff_ref'' 0 3 eff_ref_sig selector ([True, True, True, True], c)) (\<lambda>st1.
     and_then (signal_block ''pos_ref'' 1 3 pos_ref_sig selector st1) (\<lambda>st2.
     signal_block ''vel_ref'' 2 3 vel_ref_sig selector st2)))"

text \<open>
  \<^verbatim>\<open>set_gains\<close>. The block for the velocity gains validates \<^verbatim>\<open>pos_gains\<close>, as the source
  does, and assigns \<^verbatim>\<open>vel_gains\<close>.
\<close>

definition set_gains ::
  "controller \<Rightarrow> signal option \<Rightarrow> signal option \<Rightarrow>
     index_tensor option \<Rightarrow> index_tensor option \<Rightarrow> error + bool list \<times> controller" where
  "set_gains c pos_gains_sig vel_gains_sig robot_indxs jnt_indxs =
     and_then (gen_selector c robot_indxs jnt_indxs) (\<lambda>selector.
     and_then
       (case pos_gains_sig of
          None \<Rightarrow> Inr ([True, True, True], c)
        | Some pg \<Rightarrow>
            and_then (validate_signal c pos_gains_sig selector) (\<lambda>pos_gains_valid.
              if pos_gains_valid then
                and_then (assign_signal c ''pgain'' pg selector) (\<lambda>r.
                  if \<not> fst r then Inr ([True, True, True][2 := False], snd r)
                  else if \<not> override_art_controller (snd r)
                       then Inr ([True, True, True],
                                 art_call (snd r) (SetGains (Some (pos_gains (snd r))) None))
                       else Inr ([True, True, True], snd r))
              else Inr ([True, True, True][0 := False], c)))
       (\<lambda>st1.
          case vel_gains_sig of
            None \<Rightarrow> Inr st1
          | Some vg \<Rightarrow>
              and_then (validate_signal (snd st1) pos_gains_sig selector) (\<lambda>vel_gains_valid.
                if vel_gains_valid then
                  and_then (assign_signal (snd st1) ''vgain'' vg selector) (\<lambda>r.
                    if \<not> fst r then Inr ((fst st1)[2 := False], snd r)
                    else if \<not> override_art_controller (snd r)
                         then Inr (fst st1,
                                   art_call (snd r) (SetGains None (Some (vel_gains (snd r)))))
                         else Inr (fst st1, snd r))
                else Inr ((fst st1)[1 := False], snd st1))))"

section \<open>OmniJntImpCntrl: apply_cmds\<close>

text \<open>Reading one of the three filter attributes, which exist once a filter period was given.\<close>

definition filter_attr :: "filter option \<Rightarrow> error + filter" where
  "filter_attr f = (case f of None \<Rightarrow> Inl AttributeError | Some x \<Rightarrow> Inr x)"

text \<open>
  The filtered branch of \<^verbatim>\<open>apply_cmds\<close> reads \<^verbatim>\<open>self.vel_ref_filter\<close>. The class stores the
  velocity filter under \<^verbatim>\<open>_vel_ref_filter\<close> and assigns no attribute of the other name, so the
  read raises \<^verbatim>\<open>AttributeError\<close>.
\<close>

definition vel_ref_filter_attr :: "controller \<Rightarrow> error + filter" where
  "vel_ref_filter_attr c = Inl AttributeError"

text \<open>
  The impedance law as both branches of \<^verbatim>\<open>apply_cmds\<close> write it, from an effort reference
  and the two error buffers just stored.
\<close>

definition impedance_effort :: "controller \<Rightarrow> mat \<Rightarrow> mat" where
  "impedance_effort c eff_reference =
     t_add eff_reference
           (t_add (t_mul (pos_gains c) (pos_err c))
                  (t_mul (vel_gains c) (vel_err c)))"

text \<open>
  \<^verbatim>\<open>apply_cmds\<close>. \<^verbatim>\<open>torch.cuda.synchronize()\<close> changes no buffer and is left out; it needs a
  CUDA runtime, which the simulation host provides.
\<close>

definition apply_cmds :: "controller \<Rightarrow> bool \<Rightarrow> error + controller" where
  "apply_cmds c filt =
     (let c1 = (if \<not> gains_initialized c then initialize_gains c else c);
          c2 = (if \<not> refs_initialized c1 then initialize_refs c1 else c1)
      in if filt \<and> filter_available c2 then
           and_then (filter_attr (pos_ref_filter c2)) (\<lambda>pf.
           and_then (fo_update pf (Some (pos_ref c2))) (\<lambda>pf'.
           and_then (filter_attr (vel_ref_filter c2)) (\<lambda>vf.
           and_then (fo_update vf (Some (vel_ref c2))) (\<lambda>vf'.
           and_then (filter_attr (eff_ref_filter c2)) (\<lambda>ef.
           and_then (fo_update ef (Some (eff_ref c2))) (\<lambda>ef'.
             let c3 = c2\<lparr> pos_ref_filter := Some pf',
                          vel_ref_filter := Some vf',
                          eff_ref_filter := Some ef' \<rparr>
             in if \<not> override_art_controller c3 then
                  (let c4 = art_call c3 (SetJointPositionTargets (fo_get pf'))
                   in and_then (vel_ref_filter_attr c4) (\<lambda>vf2.
                        Inr (art_call
                               (art_call c4 (SetJointVelocityTargets (fo_get vf2)))
                               (SetJointEfforts (fo_get ef')))))
                else
                  (let c4 = c3\<lparr> pos_err := t_sub (fo_get pf') (pos c3) \<rparr>
                   in and_then (vel_ref_filter_attr c4) (\<lambda>vf2.
                        let c5 = c4\<lparr> vel_err := t_sub (fo_get vf2) (vel c4) \<rparr>;
                            c6 = c5\<lparr> imp_eff := impedance_effort c5 (fo_get ef') \<rparr>
                        in Inr (art_call c6 (SetJointEfforts (imp_eff c6)))))))))))
         else if \<not> override_art_controller c2 then
           Inr (art_call (art_call (art_call c2
                  (SetJointEfforts (eff_ref c2)))
                  (SetJointPositionTargets (pos_ref c2)))
                  (SetJointVelocityTargets (vel_ref c2)))
         else
           (let c3 = c2\<lparr> pos_err := t_sub (pos_ref c2) (pos c2) \<rparr>;
                c4 = c3\<lparr> vel_err := t_sub (vel_ref c3) (vel c3) \<rparr>;
                c5 = c4\<lparr> imp_eff := impedance_effort c4 (eff_ref c4) \<rparr>
            in Inr (art_call c5 (SetJointEfforts (imp_eff c5)))))"

section \<open>OmniRobotHomer\<close>

text \<open>
  The two dictionaries of the homer are association lists with Python's insertion rule: a new
  key goes to the end, a known key keeps its place and takes the new value.
\<close>

record homer =
  h_num_robots :: nat
  h_n_dofs :: nat
  h_jnts_names :: "string list"
  joint_idx_map :: "(string \<times> nat) list"
  homing :: mat
  homing_map :: "(string \<times> real) list"

text \<open>The loop of the constructor over \<^verbatim>\<open>range(0, n_dofs)\<close>; \<^verbatim>\<open>jnts_names[joint]\<close> may raise.\<close>

fun fill_joint_idx_map ::
  "string list \<Rightarrow> nat list \<Rightarrow> (string \<times> nat) list \<Rightarrow> error + (string \<times> nat) list" where
  "fill_joint_idx_map names [] m = Inr m"
| "fill_joint_idx_map names (joint # rest) m =
     (if joint < length names
      then fill_joint_idx_map names rest (AList.update (names ! joint) joint m)
      else Inl IndexError)"

text \<open>
  The loop over the joint elements of the group state named home: each element is given by its
  name attribute and the number that \<^verbatim>\<open>float\<close> reads from its value attribute.
\<close>

definition fill_homing_map :: "(string \<times> real) list \<Rightarrow> (string \<times> real) list" where
  "fill_homing_map joints = fold (\<lambda>joint m. AList.update (fst joint) (snd joint) m) joints []"

text \<open>\<^verbatim>\<open>homing[:, idx] = torch.full((num_robots, 1), v).flatten()\<close>.\<close>

definition set_column :: "mat \<Rightarrow> nat \<Rightarrow> real \<Rightarrow> mat" where
  "set_column M idx v = map (\<lambda>row. row[idx := v]) M"

definition dict_get :: "('k \<times> 'v) list \<Rightarrow> 'k \<Rightarrow> error + 'v" where
  "dict_get d k = (case map_of d k of None \<Rightarrow> Inl KeyError | Some v \<Rightarrow> Inr v)"

text \<open>
  \<^verbatim>\<open>_assign2homing\<close>: the loop over the keys of the homing map. For a key that is not a
  joint of the articulation the source builds a warning from \<^verbatim>\<open>self.journal.warning\<close>. The
  class imports \<^verbatim>\<open>Journal\<close> and never assigns an attribute \<^verbatim>\<open>journal\<close> to the instance, so
  the read raises \<^verbatim>\<open>AttributeError\<close> before anything is printed.
\<close>

fun assign2homing_loop :: "homer \<Rightarrow> string list \<Rightarrow> error + homer" where
  "assign2homing_loop h [] = Inr h"
| "assign2homing_loop h (joint # rest) =
     (if joint \<in> fst ` set (joint_idx_map h) then
        and_then (dict_get (joint_idx_map h) joint) (\<lambda>idx.
        and_then (dict_get (homing_map h) joint) (\<lambda>v.
        assign2homing_loop (h\<lparr> homing := set_column (homing h) idx v \<rparr>) rest))
      else Inl AttributeError)"

definition assign2homing :: "homer \<Rightarrow> error + homer" where
  "assign2homing h = assign2homing_loop h (map fst (homing_map h))"

text \<open>
  \<^verbatim>\<open>OmniRobotHomer.__init__\<close>, from the articulation, the joint elements found in the
  description document and the backend argument. Reading and parsing the file are outside the
  model. The message for a backend other than torch reads \<^verbatim>\<open>self.journal\<close> as well, and
  raises for the same reason.
\<close>

definition OmniRobotHomer ::
  "articulation \<Rightarrow> (string \<times> real) list \<Rightarrow> string \<Rightarrow> error + homer" where
  "OmniRobotHomer art joints backend =
     (if \<not> initialized art then Inl NotInitialized
      else
        and_then (fill_joint_idx_map (dof_names art) [0..<num_dof art] []) (\<lambda>jim.
          if backend \<noteq> ''torch'' then Inl AttributeError
          else
            assign2homing
              \<lparr> h_num_robots = count art,
                h_n_dofs = num_dof art,
                h_jnts_names = dof_names art,
                joint_idx_map = jim,
                homing = full (count art) (num_dof art) 0,
                homing_map = fill_homing_map joints \<rparr>))"

section \<open>CustomTask: robot state refresh\<close>

text \<open>
  The task keeps one dictionary per signal, all filled for the same robot names by
  \<^verbatim>\<open>_init_robots_state\<close>; the model keeps one dictionary from a robot name to the record of its
  signals. An articulation view is given by the buffers its getters return at the tick.
\<close>

record robot_state =
  root_p :: mat
  root_q :: mat
  jnts_q :: mat
  root_p_prev :: mat
  root_q_prev :: mat
  jnts_q_prev :: mat
  root_v :: mat
  root_omega :: mat
  jnts_v :: mat

record art_view =
  world_p :: mat
  world_q :: mat
  joint_positions :: mat
  linear_velocities :: mat
  angular_velocities :: mat
  joint_velocities :: mat

definition lookup :: "('k \<rightharpoonup> 'v) \<Rightarrow> 'k \<Rightarrow> error + 'v" where
  "lookup m k = (case m k of None \<Rightarrow> Inl KeyError | Some v \<Rightarrow> Inr v)"

text \<open>\<^verbatim>\<open>t.zero_()\<close> on a whole buffer.\<close>

definition zero_all :: "mat \<Rightarrow> mat" where
  "zero_all M = map (map (\<lambda>x. 0)) M"

text \<open>
  The body of the loop of \<^verbatim>\<open>_get_robots_state\<close> for one robot. \<^verbatim>\<open>quat_to_omega\<close> comes from
  a module that is not part of the sources at hand and is a parameter: it takes the current and
  the previous orientations and the period.
\<close>

definition refresh_robot ::
  "(mat \<Rightarrow> mat \<Rightarrow> real \<Rightarrow> mat) \<Rightarrow> art_view \<Rightarrow> robot_state \<Rightarrow> real option \<Rightarrow> bool \<Rightarrow>
     error + robot_state" where
  "refresh_robot quat_to_omega view s dt reset_tick =
     and_then (assign_all (root_p s) (world_p view)) (\<lambda>p.
     and_then (assign_all (root_q s) (world_q view)) (\<lambda>q.
     and_then (assign_all (jnts_q s) (joint_positions view)) (\<lambda>jq.
       let s1 = s\<lparr> root_p := p, root_q := q, jnts_q := jq \<rparr>
       in case dt of
            None \<Rightarrow>
              and_then (assign_all (root_v s1) (linear_velocities view)) (\<lambda>v.
              and_then (assign_all (root_omega s1) (angular_velocities view)) (\<lambda>om.
              and_then (assign_all (jnts_v s1) (joint_velocities view)) (\<lambda>jv.
              Inr (s1\<lparr> root_v := v, root_omega := om, jnts_v := jv \<rparr>))))
          | Some d \<Rightarrow>
              and_then
                (if \<not> reset_tick then
                   and_then (assign_all (root_v s1)
                               (t_div (t_sub (root_p s1) (root_p_prev s1)) d)) (\<lambda>v.
                   and_then (assign_all (root_omega s1)
                               (quat_to_omega (root_q s1) (root_q_prev s1) d)) (\<lambda>om.
                   and_then (assign_all (jnts_v s1)
                               (t_div (t_sub (jnts_q s1) (jnts_q_prev s1)) d)) (\<lambda>jv.
                   Inr (s1\<lparr> root_v := v, root_omega := om, jnts_v := jv \<rparr>))))
                 else
                   Inr (s1\<lparr> root_v := zero_all (root_v s1),
                            root_omega := zero_all (root_omega s1),
                            jnts_v := zero_all (jnts_v s1) \<rparr>))
                (\<lambda>s2.
                   and_then (assign_all (root_p_prev s2) (root_p s2)) (\<lambda>pp.
                   and_then (assign_all (root_q_prev s2) (root_q s2)) (\<lambda>qp.
                   and_then (assign_all (jnts_q_prev s2) (jnts_q s2)) (\<lambda>jqp.
                   Inr (s2\<lparr> root_p_prev := pp, root_q_prev := qp,
                            jnts_q_prev := jqp \<rparr>))))))))"

text \<open>\<^verbatim>\<open>_get_robots_state\<close>: the loop over the robot names.\<close>

fun get_robots_state ::
  "(mat \<Rightarrow> mat \<Rightarrow> real \<Rightarrow> mat) \<Rightarrow> (string \<rightharpoonup> art_view) \<Rightarrow> real option \<Rightarrow> bool \<Rightarrow>
     string list \<Rightarrow> (string \<rightharpoonup> robot_state) \<Rightarrow> error + (string \<rightharpoonup> robot_state)" where
  "get_robots_state quat_to_omega views dt reset_tick [] st = Inr st"
| "get_robots_state quat_to_omega views dt reset_tick (robot_name # rest) st =
     and_then (lookup views robot_name) (\<lambda>view.
     and_then (lookup st robot_name) (\<lambda>s.
     and_then (refresh_robot quat_to_omega view s dt reset_tick) (\<lambda>s'.
     get_robots_state quat_to_omega views dt reset_tick rest (st(robot_name \<mapsto> s')))))"

section \<open>Invariants\<close>

text \<open>The four buffers of a filter keep the shape given at construction.\<close>

definition filter_inv :: "filter \<Rightarrow> bool" where
  "filter_inv f =
     (has_shape (fo_rows f) (fo_cols f) (yk f) \<and>
      has_shape (fo_rows f) (fo_cols f) (ykm1 f) \<and>
      has_shape (fo_rows f) (fo_cols f) (refk f) \<and>
      has_shape (fo_rows f) (fo_cols f) (refkm1 f))"

text \<open>The output that one call of \<^verbatim>\<open>update\<close> computes from a reference.\<close>

definition fo_next :: "filter \<Rightarrow> mat \<Rightarrow> mat" where
  "fo_next f r = t_add (t_scale (ykm1 f) (coeff_km1 f)) (t_scale (t_add r (refkm1 f)) (coeff_ref f))"

text \<open>The eight signal buffers of a controller have the shape \<open>[num_robots, n_dofs]\<close>.\<close>

definition buffers_shaped :: "controller \<Rightarrow> bool" where
  "buffers_shaped c =
     (has_shape (num_robots c) (n_dofs c) (pos_ref c) \<and>
      has_shape (num_robots c) (n_dofs c) (vel_ref c) \<and>
      has_shape (num_robots c) (n_dofs c) (eff_ref c) \<and>
      has_shape (num_robots c) (n_dofs c) (pos c) \<and>
      has_shape (num_robots c) (n_dofs c) (vel c) \<and>
      has_shape (num_robots c) (n_dofs c) (eff c) \<and>
      has_shape (num_robots c) (n_dofs c) (pos_gains c) \<and>
      has_shape (num_robots c) (n_dofs c) (vel_gains c))"

text \<open>
  The tensor that the unfiltered override branch of \<^verbatim>\<open>apply_cmds\<close> stores in \<^verbatim>\<open>_imp_eff\<close>,
  with the two error buffers written out in terms of the buffers on entry.
\<close>

definition effort_law :: "controller \<Rightarrow> mat" where
  "effort_law c =
     t_add (eff_ref c)
       (t_add (t_mul (pos_gains c) (t_sub (pos_ref c) (pos c)))
              (t_mul (vel_gains c) (t_sub (vel_ref c) (vel c))))"

section \<open>A scenario: two robots with three joints\<close>

text \<open>
  The controller that the constructor returns for two robots with the joints hip, knee and wheel,
  default gains 300 and 30, on the CPU, without a filter period.
\<close>

definition scenario_art :: articulation where
  "scenario_art =
     \<lparr> initialized = True, count = 2, num_dof = 3,
       dof_names = [''hip'', ''knee'', ''wheel''] \<rparr>"

definition scenario_ctrl :: "bool \<Rightarrow> controller" where
  "scenario_ctrl override =
     \<lparr> override_art_controller = override,
       init_on_creation = False,
       gains_initialized = False,
       refs_initialized = False,
       default_pgain = 300,
       default_vgain = 30,
       filter_BW = 50,
       filter_dt = None,
       articulation_view = [],
       c_device = Cpu,
       num_robots = 2,
       n_dofs = 3,
       jnts_names = [''hip'', ''knee'', ''wheel''],
       filter_available = False,
       pos_ref_filter = None,
       vel_ref_filter = None,
       eff_ref_filter = None,
       pos_gains = [[300, 300, 300], [300, 300, 300]],
       vel_gains = [[30, 30, 30], [30, 30, 30]],
       eff_ref = [[0, 0, 0], [0, 0, 0]],
       pos_ref = [[0, 0, 0], [0, 0, 0]],
       vel_ref = [[0, 0, 0], [0, 0, 0]],
       pos_err = [[0, 0, 0], [0, 0, 0]],
       vel_err = [[0, 0, 0], [0, 0, 0]],
       pos = [[0, 0, 0], [0, 0, 0]],
       vel = [[0, 0, 0], [0, 0, 0]],
       eff = [[0, 0, 0], [0, 0, 0]],
       imp_eff = [[0, 0, 0], [0, 0, 0]] \<rparr>"

text \<open>
  The scenario controller in override mode with gains that differ between the robots and
  references and measurements that are not zero.
\<close>

definition loaded_ctrl :: controller where
  "loaded_ctrl =
     (scenario_ctrl True)\<lparr>
        pos_gains := [[300, 300, 300], [100, 100, 100]],
        vel_gains := [[30, 30, 30], [10, 10, 10]],
        eff_ref := [[1, 2, 3], [4, 5, 6]],
        pos_ref := [[1, 1, 1], [2, 2, 2]],
        vel_ref := [[0, 0, 0], [3, 3, 3]],
        pos := [[0, 0, 0], [1, 0, 1]],
        vel := [[0, 0, 0], [1, 1, 1]] \<rparr>"

section \<open>Predicates of the statements\<close>

text \<open>
  What a selector-scoped write of a signal into a buffer of shape \<open>[n, m]\<close> leaves: the cell
  \<open>(R ! i, J ! j)\<close> holds cell \<open>(i, j)\<close> of the signal, and every cell outside \<open>R \<times> J\<close> is the old
  one. Without a signal the buffer is the old one.
\<close>

definition scoped_write ::
  "nat \<Rightarrow> nat \<Rightarrow> int list \<Rightarrow> int list \<Rightarrow> signal option \<Rightarrow> mat \<Rightarrow> mat \<Rightarrow> bool" where
  "scoped_write n m R J sig old new =
     (case sig of
        None \<Rightarrow> new = old
      | Some s \<Rightarrow>
          has_shape n m new \<and>
          (\<forall>i<length R. \<forall>j<length J. new ! nat (R ! i) ! nat (J ! j) = s_data s ! i ! j) \<and>
          (\<forall>r<n. \<forall>k<m. int r \<notin> set R \<or> int k \<notin> set J \<longrightarrow> new ! r ! k = old ! r ! k))"

text \<open>The buffer that \<^verbatim>\<open>_assign_signal\<close> writes for a tag of its list.\<close>

definition buffer_of :: "string \<Rightarrow> controller \<Rightarrow> mat" where
  "buffer_of signal_type c =
     (if signal_type = ''pos_ref'' then pos_ref c
      else if signal_type = ''vel_ref'' then vel_ref c
      else if signal_type = ''eff_ref'' then eff_ref c
      else if signal_type = ''pos'' then pos c
      else if signal_type = ''vel'' then vel c
      else if signal_type = ''eff'' then eff c
      else if signal_type = ''pgain'' then pos_gains c
      else if signal_type = ''vgain'' then vel_gains c
      else [])"

text \<open>The indices of a list are non-negative and below a bound.\<close>

definition in_range :: "nat \<Rightarrow> int list \<Rightarrow> bool" where
  "in_range bound xs = list_all (\<lambda>v. 0 \<le> v \<and> v < int bound) xs"

text \<open>
  A valid index subset of the data model: a one-dimensional 64-bit integer tensor on the
  controller's device, with at least one element, of unique indices within bounds.
\<close>

definition valid_subset :: "device \<Rightarrow> nat \<Rightarrow> index_tensor \<Rightarrow> bool" where
  "valid_subset dev bound t =
     (length (i_shape t) = 1 \<and> i_dtype t = Int64 \<and> i_device t = dev \<and>
      i_vals t \<noteq> [] \<and> in_range bound (i_vals t) \<and> distinct (i_vals t))"

text \<open>A signal, when given, lies on the controller's device and has the shape \<open>[|R|, |J|]\<close>.\<close>

definition fits :: "controller \<Rightarrow> int list \<Rightarrow> int list \<Rightarrow> signal option \<Rightarrow> bool" where
  "fits c R J sig =
     (case sig of
        None \<Rightarrow> True
      | Some s \<Rightarrow> s_device s = c_device c \<and> has_shape (length R) (length J) (s_data s))"

text \<open>A controller whose filter bank is in place, with filters of the shape of the reference buffers.\<close>

definition bank_ready :: "controller \<Rightarrow> bool" where
  "bank_ready c =
     (filter_available c \<and>
      (case pos_ref_filter c of None \<Rightarrow> False
       | Some f \<Rightarrow> filter_inv f \<and> has_shape (fo_rows f) (fo_cols f) (pos_ref c)) \<and>
      (case vel_ref_filter c of None \<Rightarrow> False
       | Some f \<Rightarrow> filter_inv f \<and> has_shape (fo_rows f) (fo_cols f) (vel_ref c)) \<and>
      (case eff_ref_filter c of None \<Rightarrow> False
       | Some f \<Rightarrow> filter_inv f \<and> has_shape (fo_rows f) (fo_cols f) (eff_ref c)))"

text \<open>
  A signal, when given, is not one that \<^verbatim>\<open>_validate_signal\<close> accepts without a selector: it has
  not the shape of the whole buffer, or lies on another device.
\<close>

definition not_full :: "controller \<Rightarrow> signal option \<Rightarrow> bool" where
  "not_full c sig =
     (case sig of
        None \<Rightarrow> True
      | Some s \<Rightarrow> \<not> (nrows (s_data s) = num_robots c \<and> ncols (s_data s) = n_dofs c \<and>
                       s_device s = c_device c))"

text \<open>
  The buffers of one robot kind over \<open>n\<close> instances with \<open>m\<close> joints: positions and velocities of
  the root have three columns, orientations four, joint signals \<open>m\<close>.
\<close>

definition robot_inv :: "nat \<Rightarrow> nat \<Rightarrow> robot_state \<Rightarrow> bool" where
  "robot_inv n m s =
     (has_shape n 3 (root_p s) \<and> has_shape n 4 (root_q s) \<and> has_shape n m (jnts_q s) \<and>
      has_shape n 3 (root_p_prev s) \<and> has_shape n 4 (root_q_prev s) \<and>
      has_shape n m (jnts_q_prev s) \<and>
      has_shape n 3 (root_v s) \<and> has_shape n 3 (root_omega s) \<and> has_shape n m (jnts_v s))"

text \<open>The buffers an articulation view returns have the same shapes.\<close>

definition view_ok :: "nat \<Rightarrow> nat \<Rightarrow> art_view \<Rightarrow> bool" where
  "view_ok n m v =
     (has_shape n 3 (world_p v) \<and> has_shape n 4 (world_q v) \<and>
      has_shape n m (joint_positions v) \<and>
      has_shape n 3 (linear_velocities v) \<and> has_shape n 3 (angular_velocities v) \<and>
      has_shape n m (joint_velocities v))"

text \<open>
  What is assumed of \<^verbatim>\<open>quat_to_omega\<close>: from two orientation buffers of \<open>n\<close> rows it returns an
  angular velocity buffer of \<open>n\<close> rows.
\<close>

definition omega_shaped :: "nat \<Rightarrow> (mat \<Rightarrow> mat \<Rightarrow> real \<Rightarrow> mat) \<Rightarrow> bool" where
  "omega_shaped n quat_to_omega =
     (\<forall>q q' d. has_shape n 4 q \<longrightarrow> has_shape n 4 q' \<longrightarrow> has_shape n 3 (quat_to_omega q q' d))"

text \<open>A state and the readings of a view for one robot instance with one joint.\<close>

definition demo_state :: robot_state where
  "demo_state =
     \<lparr> root_p = [[0, 0, 1]], root_q = [[1, 0, 0, 0]], jnts_q = [[2]],
       root_p_prev = [[9, 9, 9]], root_q_prev = [[0, 1, 0, 0]], jnts_q_prev = [[7]],
       root_v = [[5, 5, 5]], root_omega = [[4, 4, 4]], jnts_v = [[3]] \<rparr>"

text \<open>The view returns a root position and a joint position that depend on one number.\<close>

definition demo_view :: "real \<Rightarrow> art_view" where
  "demo_view x =
     \<lparr> world_p = [[x, 0, 1]], world_q = [[1, 0, 0, 0]], joint_positions = [[2 * x]],
       linear_velocities = [[8, 8, 8]], angular_velocities = [[6, 6, 6]],
       joint_velocities = [[1]] \<rparr>"

section \<open>Basic facts about tensors\<close>

lemma has_shape_nth:
  "has_shape r c M \<Longrightarrow> i < r \<Longrightarrow> length (M ! i) = c"
  by (simp add: has_shape_def list_all_length)

lemma has_shape_full: "has_shape r c (full r c v)"
  by (simp add: has_shape_def full_def list_all_length)

lemma has_shape_zeros: "has_shape r c (zeros r c)"
  by (simp add: zeros_def has_shape_full)

lemma has_shape_nrows: "has_shape r c M \<Longrightarrow> nrows M = r"
  by (simp add: has_shape_def nrows_def)

lemma has_shape_ncols: "has_shape r c M \<Longrightarrow> 0 < r \<Longrightarrow> ncols M = c"
  by (cases M) (simp_all add: has_shape_def ncols_def)

lemma has_shape_rebuild:
  assumes "has_shape r c M"
  shows "map (\<lambda>i. map (\<lambda>j. M ! i ! j) [0..<c]) [0..<r] = M"
proof (rule nth_equalityI)
  show "length (map (\<lambda>i. map (\<lambda>j. M ! i ! j) [0..<c]) [0..<r]) = length M"
    using assms by (simp add: has_shape_def)
next
  fix i assume "i < length (map (\<lambda>i. map (\<lambda>j. M ! i ! j) [0..<c]) [0..<r])"
  then have i: "i < r" by simp
  then have "length (M ! i) = c" using assms by (rule has_shape_nth[rotated])
  then have "map (\<lambda>j. M ! i ! j) [0..<c] = M ! i"
    using map_nth[of "M ! i"] by simp
  then show "map (\<lambda>i. map (\<lambda>j. M ! i ! j) [0..<c]) [0..<r] ! i = M ! i"
    using i by simp
qed


lemma assign_all_same:
  assumes "has_shape r c dst" "has_shape r c src"
  shows "assign_all dst src = Inr src"
proof (cases "r = 0")
  case True
  then show ?thesis using assms
    by (simp add: assign_all_def expand_to_def has_shape_def nrows_def ncols_def)
next
  case False
  then have r: "0 < r" by simp
  have d: "nrows dst = r" "ncols dst = c" "nrows src = r" "ncols src = c"
    using assms r by (simp_all add: has_shape_nrows has_shape_ncols)
  have "map (\<lambda>i. map (\<lambda>j. src ! (if r = 1 then 0 else i) ! (if c = 1 then 0 else j)) [0..<c]) [0..<r]
        = map (\<lambda>i. map (\<lambda>j. src ! i ! j) [0..<c]) [0..<r]"
    by (rule map_cong) auto
  also have "\<dots> = src" using assms(2) by (rule has_shape_rebuild)
  finally show ?thesis
    by (simp add: assign_all_def expand_to_def d)
qed

lemma has_shape_map2:
  "has_shape r c A \<Longrightarrow> has_shape r c B \<Longrightarrow> has_shape r c (map2 (map2 f) A B)"
  by (auto simp add: has_shape_def list_all_length)

lemma nth_map2_map2:
  "has_shape r c A \<Longrightarrow> has_shape r c B \<Longrightarrow> i < r \<Longrightarrow> j < c \<Longrightarrow>
     map2 (map2 f) A B ! i ! j = f (A ! i ! j) (B ! i ! j)"
  by (auto simp add: has_shape_def list_all_length)

lemma has_shape_map_map:
  "has_shape r c A \<Longrightarrow> has_shape r c (map (map f) A)"
  by (auto simp add: has_shape_def list_all_length)

lemma nth_map_map:
  "has_shape r c A \<Longrightarrow> i < r \<Longrightarrow> j < c \<Longrightarrow> map (map f) A ! i ! j = f (A ! i ! j)"
  by (auto simp add: has_shape_def list_all_length)

lemma and_then_Inr [simp]: "and_then (Inr x) f = f x"
  by (simp add: and_then_def)

lemma and_then_Inl [simp]: "and_then (Inl e) f = Inl e"
  by (simp add: and_then_def)

lemma has_shape_t_add:
  "has_shape r c A \<Longrightarrow> has_shape r c B \<Longrightarrow> has_shape r c (t_add A B)"
  unfolding t_add_def by (rule has_shape_map2)

lemma has_shape_t_sub:
  "has_shape r c A \<Longrightarrow> has_shape r c B \<Longrightarrow> has_shape r c (t_sub A B)"
  unfolding t_sub_def by (rule has_shape_map2)

lemma has_shape_t_mul:
  "has_shape r c A \<Longrightarrow> has_shape r c B \<Longrightarrow> has_shape r c (t_mul A B)"
  unfolding t_mul_def by (rule has_shape_map2)

lemma has_shape_t_scale: "has_shape r c A \<Longrightarrow> has_shape r c (t_scale A k)"
  unfolding t_scale_def by (rule has_shape_map_map)

lemma has_shape_t_div: "has_shape r c A \<Longrightarrow> has_shape r c (t_div A k)"
  unfolding t_div_def by (rule has_shape_map_map)

lemma t_add_nth:
  "has_shape r c A \<Longrightarrow> has_shape r c B \<Longrightarrow> i < r \<Longrightarrow> j < c \<Longrightarrow>
     t_add A B ! i ! j = A ! i ! j + B ! i ! j"
  unfolding t_add_def by (rule nth_map2_map2)

lemma t_sub_nth:
  "has_shape r c A \<Longrightarrow> has_shape r c B \<Longrightarrow> i < r \<Longrightarrow> j < c \<Longrightarrow>
     t_sub A B ! i ! j = A ! i ! j - B ! i ! j"
  unfolding t_sub_def by (rule nth_map2_map2)

lemma t_mul_nth:
  "has_shape r c A \<Longrightarrow> has_shape r c B \<Longrightarrow> i < r \<Longrightarrow> j < c \<Longrightarrow>
     t_mul A B ! i ! j = A ! i ! j * B ! i ! j"
  unfolding t_mul_def by (rule nth_map2_map2)

lemma t_scale_nth:
  "has_shape r c A \<Longrightarrow> i < r \<Longrightarrow> j < c \<Longrightarrow> t_scale A k ! i ! j = A ! i ! j * k"
  unfolding t_scale_def by (rule nth_map_map)

lemma t_div_nth:
  "has_shape r c A \<Longrightarrow> i < r \<Longrightarrow> j < c \<Longrightarrow> t_div A k ! i ! j = A ! i ! j / k"
  unfolding t_div_def by (rule nth_map_map)

lemma has_shape_fo_next:
  "filter_inv f \<Longrightarrow> has_shape (fo_rows f) (fo_cols f) r \<Longrightarrow>
     has_shape (fo_rows f) (fo_cols f) (fo_next f r)"
  by (simp add: fo_next_def filter_inv_def has_shape_t_add has_shape_t_scale)

lemma fo_next_nth:
  assumes "filter_inv f" "has_shape (fo_rows f) (fo_cols f) r" "i < fo_rows f" "j < fo_cols f"
  shows "fo_next f r ! i ! j =
           ykm1 f ! i ! j * coeff_km1 f + (r ! i ! j + refkm1 f ! i ! j) * coeff_ref f"
proof -
  let ?n = "fo_rows f" and ?m = "fo_cols f"
  have a: "has_shape ?n ?m (ykm1 f)" "has_shape ?n ?m (refkm1 f)"
    using assms(1) by (simp_all add: filter_inv_def)
  have s: "has_shape ?n ?m (t_add r (refkm1 f))"
    using assms(2) a(2) by (rule has_shape_t_add)
  have l: "has_shape ?n ?m (t_scale (ykm1 f) (coeff_km1 f))"
    using a(1) by (rule has_shape_t_scale)
  have r: "has_shape ?n ?m (t_scale (t_add r (refkm1 f)) (coeff_ref f))"
    using s by (rule has_shape_t_scale)
  show ?thesis
    unfolding fo_next_def
    by (simp add: t_add_nth[OF l r assms(3,4)] t_scale_nth[OF a(1) assms(3,4)]
        t_scale_nth[OF s assms(3,4)] t_add_nth[OF assms(2) a(2) assms(3,4)])
qed

lemma fo_update_Some:
  assumes "filter_inv f" "has_shape (fo_rows f) (fo_cols f) r"
  shows "fo_update f (Some r) =
           Inr (f\<lparr> refk := r, yk := fo_next f r, refkm1 := r, ykm1 := fo_next f r \<rparr>)"
proof -
  let ?n = "fo_rows f" and ?m = "fo_cols f"
  have inv: "has_shape ?n ?m (yk f)" "has_shape ?n ?m (ykm1 f)"
            "has_shape ?n ?m (refk f)" "has_shape ?n ?m (refkm1 f)"
    using assms(1) by (simp_all add: filter_inv_def)
  have y: "has_shape ?n ?m (fo_next f r)"
    using assms by (rule has_shape_fo_next)
  show ?thesis
    unfolding fo_update_def fo_next_def[symmetric]
    by (simp add: assign_all_same[OF inv(3) assms(2)] assign_all_same[OF inv(1) y]
        assign_all_same[OF inv(4) assms(2)] assign_all_same[OF inv(2) y])
qed

lemma filter_inv_init:
  "FirstOrderFilter dt bw rows cols dev = Inr f \<Longrightarrow> filter_inv f"
  by (auto simp add: FirstOrderFilter_def Let_def filter_inv_def has_shape_zeros split: if_splits)

lemma fo_run_ok:
  assumes "filter_inv f" "list_all (has_shape (fo_rows f) (fo_cols f)) refs"
  shows "\<exists>f'. fo_run f refs = Inr f' \<and> filter_inv f' \<and>
           fo_rows f' = fo_rows f \<and> fo_cols f' = fo_cols f \<and>
           coeff_ref f' = coeff_ref f \<and> coeff_km1 f' = coeff_km1 f \<and>
           refkm1 f' = (if refs = [] then refkm1 f else last refs) \<and>
           ykm1 f' = (if refs = [] then ykm1 f else yk f')"
  using assms
proof (induction refs arbitrary: f)
  case Nil
  then show ?case by simp
next
  case (Cons r rs)
  let ?g = "f\<lparr> refk := r, yk := fo_next f r, refkm1 := r, ykm1 := fo_next f r \<rparr>"
  have r: "has_shape (fo_rows f) (fo_cols f) r" using Cons.prems(2) by simp
  have up: "fo_update f (Some r) = Inr ?g"
    using Cons.prems(1) r by (rule fo_update_Some)
  have ginv: "filter_inv ?g"
    using Cons.prems(1) r has_shape_fo_next[OF Cons.prems(1) r] by (simp add: filter_inv_def)
  have "list_all (has_shape (fo_rows ?g) (fo_cols ?g)) rs" using Cons.prems(2) by simp
  from Cons.IH[OF ginv this] obtain f' where
    f': "fo_run ?g rs = Inr f'" "filter_inv f'" "fo_rows f' = fo_rows ?g" "fo_cols f' = fo_cols ?g"
        "coeff_ref f' = coeff_ref ?g" "coeff_km1 f' = coeff_km1 ?g"
        "refkm1 f' = (if rs = [] then refkm1 ?g else last rs)"
        "ykm1 f' = (if rs = [] then ykm1 ?g else yk f')"
    by blast
  have "rs = [] \<Longrightarrow> f' = ?g" using f'(1) by simp
  then show ?case using up f' by auto
qed

section \<open>The first-order filter\<close>

text \<open>
  C2. A filter is constructed with period \<open>dt\<close> and bandwidth \<open>bw\<close> and fed any sequence of
  references of its shape. The next call of \<^verbatim>\<open>update\<close>, with reference \<open>r\<close>, returns, and its
  output is, cell by cell, \<open>y\<^sub>k\<^sub>-\<^sub>1 * (1 - K dt / 2) / (1 + K dt / 2) +
  (r + ref\<^sub>k\<^sub>-\<^sub>1) * (K dt / 2) / (1 + K dt / 2)\<close> with \<open>K = 2 pi bw\<close>, where \<open>y\<^sub>k\<^sub>-\<^sub>1\<close> is the
  previous output and \<open>ref\<^sub>k\<^sub>-\<^sub>1\<close> the previous reference (zero before the first call). The call
  then leaves \<open>r\<close> in the previous-reference buffer and the new output in the previous-output
  buffer.
\<close>

theorem fo_update_bilinear:
  assumes "FirstOrderFilter dt bw rows cols dev = Inr f0"
      and "list_all (has_shape rows cols) refs"
      and "has_shape rows cols r"
  shows "\<exists>f f'. fo_run f0 refs = Inr f \<and> fo_update f (Some r) = Inr f' \<and>
           ykm1 f = yk f \<and>
           refkm1 f = (if refs = [] then zeros rows cols else last refs) \<and>
           (\<forall>i<rows. \<forall>j<cols.
              yk f' ! i ! j =
                ykm1 f ! i ! j * ((1 - 2 * pi * bw * dt / 2) / (1 + 2 * pi * bw * dt / 2)) +
                (r ! i ! j + refkm1 f ! i ! j) *
                  ((2 * pi * bw * dt / 2) / (1 + 2 * pi * bw * dt / 2))) \<and>
           refk f' = r \<and> refkm1 f' = r \<and> ykm1 f' = yk f'"
proof -
  have f0: "fo_rows f0 = rows" "fo_cols f0 = cols"
       "coeff_km1 f0 = (1 - 2 * pi * bw * dt / 2) / (1 + 2 * pi * bw * dt / 2)"
       "coeff_ref f0 = (2 * pi * bw * dt / 2) / (1 + 2 * pi * bw * dt / 2)"
       "refkm1 f0 = zeros rows cols" "ykm1 f0 = yk f0"
    using assms(1) by (auto simp add: FirstOrderFilter_def Let_def split: if_splits)
  have inv0: "filter_inv f0" using assms(1) by (rule filter_inv_init)
  from fo_run_ok[OF inv0] assms(2) f0 obtain f where
    f: "fo_run f0 refs = Inr f" "filter_inv f" "fo_rows f = rows" "fo_cols f = cols"
       "coeff_ref f = coeff_ref f0" "coeff_km1 f = coeff_km1 f0"
       "refkm1 f = (if refs = [] then refkm1 f0 else last refs)"
       "ykm1 f = (if refs = [] then ykm1 f0 else yk f)"
    by force
  have nil: "refs = [] \<Longrightarrow> f = f0" using f(1) by simp
  have r: "has_shape (fo_rows f) (fo_cols f) r" using assms(3) f by simp
  let ?f' = "f\<lparr> refk := r, yk := fo_next f r, refkm1 := r, ykm1 := fo_next f r \<rparr>"
  have up: "fo_update f (Some r) = Inr ?f'" using f(2) r by (rule fo_update_Some)
  have cell: "\<forall>i<rows. \<forall>j<cols. yk ?f' ! i ! j =
                ykm1 f ! i ! j * ((1 - 2 * pi * bw * dt / 2) / (1 + 2 * pi * bw * dt / 2)) +
                (r ! i ! j + refkm1 f ! i ! j) *
                  ((2 * pi * bw * dt / 2) / (1 + 2 * pi * bw * dt / 2))"
    using fo_next_nth[OF f(2) r] f(3,4,5,6) f0(3,4) by simp
  have y: "ykm1 f = yk f" using f(8) f0(6) nil by auto
  have rk: "refkm1 f = (if refs = [] then zeros rows cols else last refs)"
    using f(7) f0(5) by simp
  show ?thesis using f(1) up cell y rk by (intro exI[of _ f] exI[of _ ?f']) simp
qed

theorem fo_update_bilinear_witness:
  "\<exists>f0. FirstOrderFilter (1 / 100) 50 1 2 Cpu = Inr f0 \<and>
        list_all (has_shape 1 2) [[[1, 1]]] \<and>
        has_shape 1 2 [[1, 1]] \<and>
        (\<exists>f f'. fo_run f0 [[[1, 1]]] = Inr f \<and> fo_update f (Some [[1, 1]]) = Inr f' \<and>
           ykm1 f = yk f \<and>
           refkm1 f = (if [[[1, 1]]] = ([] :: mat list) then zeros 1 2 else last [[[1, 1]]]) \<and>
           (\<forall>i<1. \<forall>j<2.
              yk f' ! i ! j =
                ykm1 f ! i ! j *
                  ((1 - 2 * pi * 50 * (1 / 100) / 2) / (1 + 2 * pi * 50 * (1 / 100) / 2)) +
                ([[1, 1]] ! i ! j + refkm1 f ! i ! j) *
                  ((2 * pi * 50 * (1 / 100) / 2) / (1 + 2 * pi * 50 * (1 / 100) / 2))) \<and>
           refk f' = [[1, 1]] \<and> refkm1 f' = [[1, 1]] \<and> ykm1 f' = yk f')"
proof -
  have "0 < 1 + pi / 2" using pi_gt_zero by linarith
  then have "1 + 2 * pi * 50 * (1 / 100) / 2 \<noteq> 0" by simp
  then obtain f0 where h1: "FirstOrderFilter (1 / 100) 50 1 2 Cpu = Inr f0"
    by (simp add: FirstOrderFilter_def Let_def)
  have h2: "list_all (has_shape 1 2) [[[1, 1]]]" by (simp add: has_shape_def)
  have h3: "has_shape 1 2 [[1, 1]]" by (simp add: has_shape_def)
  from fo_update_bilinear[OF h1 h2 h3] h1 h2 h3 show ?thesis by blast
qed

section \<open>The scenario controller\<close>


lemma full_2_3: "full 2 3 v = [[v, v, v], [v, v, v]]"
  by (simp add: full_def numeral_2_eq_2 numeral_3_eq_3)

lemma zeros_2_3: "zeros 2 3 = [[0, 0, 0], [0, 0, 0]]"
  by (simp add: zeros_def full_2_3)

lemma scenario_ctrl_constructed:
  "OmniJntImpCntrl scenario_art 300 30 Cpu 50 None override False = Inr (scenario_ctrl override)"
  by (simp add: OmniJntImpCntrl_def scenario_art_def reset_def Let_def scenario_ctrl_def
      full_2_3 zeros_2_3)


lemma mat_eqI:
  assumes "has_shape r c A" "has_shape r c B" "\<And>i j. i < r \<Longrightarrow> j < c \<Longrightarrow> A ! i ! j = B ! i ! j"
  shows "A = B"
proof (rule nth_equalityI)
  show "length A = length B" using assms(1,2) by (simp add: has_shape_def)
next
  fix i assume "i < length A"
  then have i: "i < r" using assms(1) by (simp add: has_shape_def)
  show "A ! i = B ! i"
  proof (rule nth_equalityI)
    show "length (A ! i) = length (B ! i)"
      using has_shape_nth[OF assms(1) i] has_shape_nth[OF assms(2) i] by simp
  next
    fix j assume "j < length (A ! i)"
    then have "j < c" using has_shape_nth[OF assms(1) i] by simp
    then show "A ! i ! j = B ! i ! j" using i by (rule assms(3)[rotated])
  qed
qed

lemma zeros_nth: "i < r \<Longrightarrow> j < c \<Longrightarrow> zeros r c ! i ! j = 0"
  by (simp add: zeros_def full_def)

lemma apply_cmds_override_plain:
  assumes "override_art_controller c"
  shows "\<exists>c'. apply_cmds c False = Inr c' \<and>
           last (articulation_view c') = SetJointEfforts (effort_law c) \<and>
           imp_eff c' = effort_law c"
  using assms
  by (simp add: apply_cmds_def initialize_gains_def initialize_refs_def art_call_def Let_def
      impedance_effort_def effort_law_def)

lemma effort_law_shape:
  assumes "buffers_shaped c"
  shows "has_shape (num_robots c) (n_dofs c) (effort_law c)"
  using assms
  by (simp add: buffers_shaped_def effort_law_def has_shape_t_add has_shape_t_mul has_shape_t_sub)

lemma effort_law_nth:
  assumes "buffers_shaped c" "i < num_robots c" "j < n_dofs c"
  shows "effort_law c ! i ! j =
           eff_ref c ! i ! j + pos_gains c ! i ! j * (pos_ref c ! i ! j - pos c ! i ! j)
             + vel_gains c ! i ! j * (vel_ref c ! i ! j - vel c ! i ! j)"
proof -
  let ?n = "num_robots c" and ?m = "n_dofs c"
  have b: "has_shape ?n ?m (pos_ref c)" "has_shape ?n ?m (vel_ref c)" "has_shape ?n ?m (eff_ref c)"
          "has_shape ?n ?m (pos c)" "has_shape ?n ?m (vel c)"
          "has_shape ?n ?m (pos_gains c)" "has_shape ?n ?m (vel_gains c)"
    using assms(1) by (simp_all add: buffers_shaped_def)
  note ij = assms(2,3)
  have pe: "has_shape ?n ?m (t_sub (pos_ref c) (pos c))" using b(1,4) by (rule has_shape_t_sub)
  have ve: "has_shape ?n ?m (t_sub (vel_ref c) (vel c))" using b(2,5) by (rule has_shape_t_sub)
  have pm: "has_shape ?n ?m (t_mul (pos_gains c) (t_sub (pos_ref c) (pos c)))"
    using b(6) pe by (rule has_shape_t_mul)
  have vm: "has_shape ?n ?m (t_mul (vel_gains c) (t_sub (vel_ref c) (vel c)))"
    using b(7) ve by (rule has_shape_t_mul)
  have sm: "has_shape ?n ?m (t_add (t_mul (pos_gains c) (t_sub (pos_ref c) (pos c)))
                                  (t_mul (vel_gains c) (t_sub (vel_ref c) (vel c))))"
    using pm vm by (rule has_shape_t_add)
  show ?thesis
    unfolding effort_law_def
    by (simp add: t_add_nth[OF b(3) sm ij] t_add_nth[OF pm vm ij] t_mul_nth[OF b(6) pe ij]
        t_mul_nth[OF b(7) ve ij] t_sub_nth[OF b(1,4) ij] t_sub_nth[OF b(2,5) ij])
qed

section \<open>The effort law\<close>

text \<open>
  C1. In override mode, with gains, references and measurements of shape
  \<open>[num_robots, n_dofs]\<close>, \<^verbatim>\<open>apply_cmds\<close> without filtering returns, and the last command it
  issues is the effort \<open>E\<close> with \<open>E = eff_ref + pos_gain * (pos_ref - pos) +
  vel_gain * (vel_ref - vel)\<close> in every cell. \<open>E\<close> is \<open>eff_ref\<close> when both gain buffers are
  zero, and the proportional-derivative term alone when \<open>eff_ref\<close> is zero. The host is
  assumed to have a CUDA runtime, as the simulation requires: the barrier
  \<^verbatim>\<open>torch.cuda.synchronize()\<close> before the command then returns and changes no buffer.
\<close>

theorem apply_cmds_effort_law:
  assumes "override_art_controller c" and "buffers_shaped c"
  shows "\<exists>c' E. apply_cmds c False = Inr c' \<and>
           last (articulation_view c') = SetJointEfforts E \<and>
           has_shape (num_robots c) (n_dofs c) E \<and>
           (\<forall>i<num_robots c. \<forall>j<n_dofs c.
              E ! i ! j =
                eff_ref c ! i ! j + pos_gains c ! i ! j * (pos_ref c ! i ! j - pos c ! i ! j)
                  + vel_gains c ! i ! j * (vel_ref c ! i ! j - vel c ! i ! j)) \<and>
           (pos_gains c = zeros (num_robots c) (n_dofs c) \<and>
            vel_gains c = zeros (num_robots c) (n_dofs c) \<longrightarrow> E = eff_ref c) \<and>
           (eff_ref c = zeros (num_robots c) (n_dofs c) \<longrightarrow>
              (\<forall>i<num_robots c. \<forall>j<n_dofs c.
                 E ! i ! j =
                   pos_gains c ! i ! j * (pos_ref c ! i ! j - pos c ! i ! j)
                     + vel_gains c ! i ! j * (vel_ref c ! i ! j - vel c ! i ! j)))"
proof -
  let ?n = "num_robots c" and ?m = "n_dofs c"
  from apply_cmds_override_plain[OF assms(1)] obtain c' where
    c': "apply_cmds c False = Inr c'" "last (articulation_view c') = SetJointEfforts (effort_law c)"
    by blast
  have sh: "has_shape ?n ?m (effort_law c)" using assms(2) by (rule effort_law_shape)
  have cell: "\<forall>i<?n. \<forall>j<?m. effort_law c ! i ! j =
                eff_ref c ! i ! j + pos_gains c ! i ! j * (pos_ref c ! i ! j - pos c ! i ! j)
                  + vel_gains c ! i ! j * (vel_ref c ! i ! j - vel c ! i ! j)"
    using effort_law_nth[OF assms(2)] by blast
  have z: "effort_law c = eff_ref c"
    if "pos_gains c = zeros ?n ?m" "vel_gains c = zeros ?n ?m"
  proof (rule mat_eqI[OF sh])
    show "has_shape ?n ?m (eff_ref c)" using assms(2) by (simp add: buffers_shaped_def)
  next
    fix i j assume "i < ?n" "j < ?m"
    then show "effort_law c ! i ! j = eff_ref c ! i ! j"
      using cell that by (simp add: zeros_nth)
  qed
  have pd: "\<forall>i<?n. \<forall>j<?m. effort_law c ! i ! j =
              pos_gains c ! i ! j * (pos_ref c ! i ! j - pos c ! i ! j)
                + vel_gains c ! i ! j * (vel_ref c ! i ! j - vel c ! i ! j)"
    if "eff_ref c = zeros ?n ?m"
    using cell that by (simp add: zeros_nth)
  show ?thesis
    using c' sh cell z pd by (intro exI[of _ c'] exI[of _ "effort_law c"]) blast
qed

theorem apply_cmds_effort_law_witness:
  "override_art_controller loaded_ctrl \<and> buffers_shaped loaded_ctrl \<and>
   (\<exists>c' E. apply_cmds loaded_ctrl False = Inr c' \<and>
      last (articulation_view c') = SetJointEfforts E \<and>
      has_shape 2 3 E \<and>
      E ! 0 ! 0 = 301 \<and> E ! 0 ! 1 = 302 \<and> E ! 0 ! 2 = 303 \<and>
      E ! 1 ! 0 = 124 \<and> E ! 1 ! 1 = 225 \<and> E ! 1 ! 2 = 126)"
proof -
  let ?c = loaded_ctrl
  have h1: "override_art_controller ?c" by (simp add: loaded_ctrl_def scenario_ctrl_def)
  have h2: "buffers_shaped ?c"
    by (simp add: loaded_ctrl_def scenario_ctrl_def buffers_shaped_def has_shape_def)
  have n: "num_robots ?c = 2" "n_dofs ?c = 3" by (simp_all add: loaded_ctrl_def scenario_ctrl_def)
  from apply_cmds_effort_law[OF h1 h2] obtain c' E where
    r: "apply_cmds ?c False = Inr c'" "last (articulation_view c') = SetJointEfforts E"
       "has_shape (num_robots ?c) (n_dofs ?c) E"
    and cell: "\<forall>i<num_robots ?c. \<forall>j<n_dofs ?c.
              E ! i ! j =
                eff_ref ?c ! i ! j + pos_gains ?c ! i ! j * (pos_ref ?c ! i ! j - pos ?c ! i ! j)
                  + vel_gains ?c ! i ! j * (vel_ref ?c ! i ! j - vel ?c ! i ! j)"
    by blast
  have c: "E ! i ! j =
             eff_ref ?c ! i ! j + pos_gains ?c ! i ! j * (pos_ref ?c ! i ! j - pos ?c ! i ! j)
               + vel_gains ?c ! i ! j * (vel_ref ?c ! i ! j - vel ?c ! i ! j)"
    if "i < 2" "j < 3" for i j
    using cell that n by simp
  have v: "E ! 0 ! 0 = 301" "E ! 0 ! 1 = 302" "E ! 0 ! 2 = 303"
          "E ! 1 ! 0 = 124" "E ! 1 ! 1 = 225" "E ! 1 ! 2 = 126"
    by (simp_all add: c loaded_ctrl_def scenario_ctrl_def)
  have s: "has_shape 2 3 E" using r(3) n by simp
  show ?thesis
    using h1 h2 r(1,2) s v
    by (intro conjI exI[of _ c'] exI[of _ E])
qed

section \<open>Selector-scoped writes\<close>

lemma has_shape_put_cell:
  assumes "has_shape n m b"
  shows "has_shape n m (put_cell b r k v)"
proof (cases "r < length b")
  case True
  then show ?thesis using assms
    by (auto simp add: has_shape_def put_cell_def list_all_length nth_list_update)
next
  case False
  then have "b[r := (b ! r)[k := v]] = b" by (simp add: list_update_beyond)
  then show ?thesis using assms by (simp add: put_cell_def)
qed

lemma put_cell_nth:
  "has_shape n m b \<Longrightarrow> r < n \<Longrightarrow> k < m \<Longrightarrow> r' < n \<Longrightarrow> k' < m \<Longrightarrow>
     put_cell b r k v ! r' ! k' = (if r' = r \<and> k' = k then v else b ! r' ! k')"
  by (auto simp add: has_shape_def put_cell_def list_all_length nth_list_update)

lemma fold_put_cell:
  assumes "has_shape n m b"
      and "\<forall>w\<in>set ws. fst (fst w) < n \<and> snd (fst w) < m"
  shows "has_shape n m (fold (\<lambda>w b. put_cell b (fst (fst w)) (snd (fst w)) (snd w)) ws b) \<and>
         (\<forall>r<n. \<forall>k<m.
            fold (\<lambda>w b. put_cell b (fst (fst w)) (snd (fst w)) (snd w)) ws b ! r ! k =
              (case map_of (rev ws) (r, k) of Some v \<Rightarrow> v | None \<Rightarrow> b ! r ! k))"
  using assms
proof (induction ws arbitrary: b)
  case Nil
  then show ?case by simp
next
  case (Cons w ws)
  let ?b = "put_cell b (fst (fst w)) (snd (fst w)) (snd w)"
  have w: "fst (fst w) < n" "snd (fst w) < m" using Cons.prems(2) by simp_all
  have sb: "has_shape n m ?b" using Cons.prems(1) by (rule has_shape_put_cell)
  have rest: "\<forall>w\<in>set ws. fst (fst w) < n \<and> snd (fst w) < m" using Cons.prems(2) by simp
  note IH = Cons.IH[OF sb rest]
  show ?case
  proof (intro conjI allI impI)
    show "has_shape n m (fold (\<lambda>w b. put_cell b (fst (fst w)) (snd (fst w)) (snd w)) (w # ws) b)"
      using IH by simp
  next
    fix r k assume rk: "r < n" "k < m"
    have "fold (\<lambda>w b. put_cell b (fst (fst w)) (snd (fst w)) (snd w)) (w # ws) b ! r ! k =
            (case map_of (rev ws) (r, k) of Some v \<Rightarrow> v | None \<Rightarrow> ?b ! r ! k)"
      using IH rk by simp
    also have "?b ! r ! k = (if r = fst (fst w) \<and> k = snd (fst w) then snd w else b ! r ! k)"
      using put_cell_nth[OF Cons.prems(1) w rk] by simp
    also have "(case map_of (rev ws) (r, k) of Some v \<Rightarrow> v
                | None \<Rightarrow> (if r = fst (fst w) \<and> k = snd (fst w) then snd w else b ! r ! k)) =
               (case map_of (rev (w # ws)) (r, k) of Some v \<Rightarrow> v | None \<Rightarrow> b ! r ! k)"
      by (cases w) (auto simp add: map_add_def split: option.splits)
    finally show "fold (\<lambda>w b. put_cell b (fst (fst w)) (snd (fst w)) (snd w)) (w # ws) b ! r ! k =
            (case map_of (rev (w # ws)) (r, k) of Some v \<Rightarrow> v | None \<Rightarrow> b ! r ! k)" .
  qed
qed

lemma index_put_scoped:
  assumes buf: "has_shape n m buf"
      and R: "R \<noteq> []" "in_range n R" "distinct R"
      and J: "in_range m J" "distinct J"
      and src: "has_shape (length R) (length J) src"
  shows "\<exists>new. index_put buf (R, J) src = Inr new \<and> has_shape n m new \<and>
           (\<forall>i<length R. \<forall>j<length J. new ! nat (R ! i) ! nat (J ! j) = src ! i ! j) \<and>
           (\<forall>r<n. \<forall>k<m. int r \<notin> set R \<or> int k \<notin> set J \<longrightarrow> new ! r ! k = buf ! r ! k)"
proof -
  have Rb: "\<And>i. i < length R \<Longrightarrow> 0 \<le> R ! i \<and> R ! i < int n"
    using R(2) by (simp add: in_range_def list_all_length)
  have Jb: "\<And>j. j < length J \<Longrightarrow> 0 \<le> J ! j \<and> J ! j < int m"
    using J(1) by (simp add: in_range_def list_all_length)
  have lR: "0 < length R" using R(1) by simp
  have n: "0 < n" using Rb[OF lR] by simp
  have dims: "nrows buf = n" "ncols buf = m"
    using buf n by (simp_all add: has_shape_nrows has_shape_ncols)
  have sdims: "nrows src = length R" "ncols src = length J"
    using src lR by (simp_all add: has_shape_nrows has_shape_ncols)
  have chk: "list_all (\<lambda>r. - int (nrows buf) \<le> r \<and> r < int (nrows buf)) R"
            "list_all (\<lambda>k. - int (ncols buf) \<le> k \<and> k < int (ncols buf)) J"
  proof -
    have "\<And>i. i < length R \<Longrightarrow> - int n \<le> R ! i \<and> R ! i < int n" using Rb by force
    then show "list_all (\<lambda>r. - int (nrows buf) \<le> r \<and> r < int (nrows buf)) R"
      by (simp add: list_all_length dims)
    have "\<And>j. j < length J \<Longrightarrow> - int m \<le> J ! j \<and> J ! j < int m" using Jb by force
    then show "list_all (\<lambda>k. - int (ncols buf) \<le> k \<and> k < int (ncols buf)) J"
      by (simp add: list_all_length dims)
  qed
  have ex: "expand_to (length R) (length J) src = Inr src"
    using assign_all_same[OF src src] sdims by (simp add: assign_all_def)
  let ?ps = "List.product [0..<length R] [0..<length J]"
  let ?g = "\<lambda>p. ((nat (R ! fst p), nat (J ! snd p)), src ! fst p ! snd p)"
  let ?put = "\<lambda>w b. put_cell b (fst (fst w)) (snd (fst w)) (snd w)"
  let ?ws = "map ?g ?ps"
  let ?new = "fold ?put ?ws buf"
  have "fold (\<lambda>(i, j) b. put_cell b (norm_idx (nrows buf) (R ! i)) (norm_idx (ncols buf) (J ! j))
                           (src ! i ! j)) ?ps buf =
        fold (\<lambda>p b. put_cell b (nat (R ! fst p)) (nat (J ! snd p)) (src ! fst p ! snd p)) ?ps buf"
  proof (rule fold_cong)
    fix p assume "p \<in> set ?ps"
    then have pb: "fst p < length R" "snd p < length J" by auto
    have "norm_idx (nrows buf) (R ! fst p) = nat (R ! fst p)"
         "norm_idx (ncols buf) (J ! snd p) = nat (J ! snd p)"
      using Rb[OF pb(1)] Jb[OF pb(2)] by (simp_all add: norm_idx_def)
    then show "(case p of (i, j) \<Rightarrow> \<lambda>b. put_cell b (norm_idx (nrows buf) (R ! i))
                           (norm_idx (ncols buf) (J ! j)) (src ! i ! j)) =
               (\<lambda>b. put_cell b (nat (R ! fst p)) (nat (J ! snd p)) (src ! fst p ! snd p))"
      by (simp add: case_prod_beta)
  qed simp_all
  also have "\<dots> = ?new" by (simp add: fold_map comp_def)
  finally have ip: "index_put buf (R, J) src = Inr ?new"
    using chk ex by (simp add: index_put_def)
  have wsb: "\<forall>w\<in>set ?ws. fst (fst w) < n \<and> snd (fst w) < m"
    using Rb Jb by (auto simp add: nat_less_iff)
  note F = fold_put_cell[OF buf wsb]
  have keys: "distinct (map fst ?ws)"
  proof -
    have "inj_on (\<lambda>p. (nat (R ! fst p), nat (J ! snd p))) (set ?ps)"
    proof (rule inj_onI)
      fix p q assume p: "p \<in> set ?ps" and q: "q \<in> set ?ps"
        and e: "(nat (R ! fst p), nat (J ! snd p)) = (nat (R ! fst q), nat (J ! snd q))"
      have pb: "fst p < length R" "snd p < length J" using p by auto
      have qb: "fst q < length R" "snd q < length J" using q by auto
      have "R ! fst p = R ! fst q"
        using e Rb[OF pb(1)] Rb[OF qb(1)] by (auto simp add: nat_eq_iff)
      then have 1: "fst p = fst q"
        using R(3) pb(1) qb(1) by (simp add: nth_eq_iff_index_eq)
      have "J ! snd p = J ! snd q"
        using e Jb[OF pb(2)] Jb[OF qb(2)] by (auto simp add: nat_eq_iff)
      then have 2: "snd p = snd q"
        using J(2) pb(2) qb(2) by (simp add: nth_eq_iff_index_eq)
      show "p = q" using 1 2 by (simp add: prod_eq_iff)
    qed
    moreover have "distinct ?ps" by (simp add: distinct_product)
    ultimately show ?thesis by (simp add: distinct_map comp_def)
  qed
  have hit: "?new ! nat (R ! i) ! nat (J ! j) = src ! i ! j" if ij: "i < length R" "j < length J" for i j
  proof -
    have "((nat (R ! i), nat (J ! j)), src ! i ! j) \<in> set (rev ?ws)"
    proof -
      have "(i, j) \<in> set ?ps" using ij by simp
      then have "?g (i, j) \<in> ?g ` set ?ps" by (rule imageI)
      then have "?g (i, j) \<in> set ?ws" by (simp only: set_map)
      then show ?thesis by simp
    qed
    moreover have "distinct (map fst (rev ?ws))" using keys by (simp add: rev_map[symmetric])
    ultimately have "map_of (rev ?ws) (nat (R ! i), nat (J ! j)) = Some (src ! i ! j)"
      by (simp add: map_of_eq_Some_iff)
    moreover have "nat (R ! i) < n" "nat (J ! j) < m"
      using Rb[OF ij(1)] Jb[OF ij(2)] by (simp_all add: nat_less_iff)
    ultimately show ?thesis using F by simp
  qed
  have miss: "?new ! r ! k = buf ! r ! k"
    if rk: "r < n" "k < m" and out: "int r \<notin> set R \<or> int k \<notin> set J" for r k
  proof -
    have "(r, k) \<notin> fst ` set (rev ?ws)"
    proof
      assume "(r, k) \<in> fst ` set (rev ?ws)"
      then obtain i j where ij: "i < length R" "j < length J" "r = nat (R ! i)" "k = nat (J ! j)"
        by auto
      then have "int r = R ! i" "int k = J ! j" using Rb[OF ij(1)] Jb[OF ij(2)] by simp_all
      then have "int r \<in> set R" "int k \<in> set J" using ij(1,2) by simp_all
      then show False using out by simp
    qed
    then have "map_of (rev ?ws) (r, k) = None" by (simp add: map_of_eq_None_iff)
    then show ?thesis using F rk by simp
  qed
  show ?thesis using ip F hit miss by blast
qed

lemma min_max_in_range:
  assumes "xs \<noteq> []"
  shows "(0 \<le> Min (set xs) \<and> Max (set xs) < int bound) = in_range bound xs"
proof -
  have "(0 \<le> Min (set xs)) = (\<forall>v\<in>set xs. 0 \<le> v)" using assms by (simp add: Min_ge_iff)
  moreover have "(Max (set xs) < int bound) = (\<forall>v\<in>set xs. v < int bound)"
    using assms by (simp add: Max_less_iff)
  ultimately show ?thesis by (auto simp add: in_range_def list_all_iff)
qed

lemma check_indxs_Some:
  assumes "i_vals t \<noteq> []"
  shows "check_indxs dev bound (Some t) =
           Inr (if length (i_shape t) = 1 \<and> i_dtype t = Int64 \<and> i_device t = dev \<and>
                   in_range bound (i_vals t)
                then VALID else INVALID)"
  using assms min_max_in_range[OF assms, of bound] by (auto simp add: check_indxs_def)

lemma check_indxs_valid:
  "valid_subset dev bound t \<Longrightarrow> check_indxs dev bound (Some t) = Inr VALID"
  by (simp add: valid_subset_def check_indxs_Some)

lemma gen_selector_valid:
  assumes "valid_subset (c_device c) (num_robots c) ri"
      and "valid_subset (c_device c) (n_dofs c) ji"
  shows "gen_selector c (Some ri) (Some ji) = Inr (Some (i_vals ri, i_vals ji))"
  using check_indxs_valid[OF assms(1)] check_indxs_valid[OF assms(2)]
  by (simp add: gen_selector_def validate_selectors_def meshgrid_def Let_def)

lemma gen_selector_invalid:
  assumes "check_indxs (c_device c) (num_robots c) ri = Inr sr"
      and "check_indxs (c_device c) (n_dofs c) ji = Inr sj"
      and "sr = INVALID \<or> sj = INVALID"
  shows "gen_selector c ri ji = Inr None"
  using assms by (auto simp add: gen_selector_def validate_selectors_def Let_def)

lemma validate_signal_fits:
  assumes "fits c R J (Some s)" "R \<noteq> []"
  shows "validate_signal c (Some s) (Some (R, J)) = Inr True"
proof -
  have "has_shape (length R) (length J) (s_data s)" "s_device s = c_device c"
    using assms(1) by (simp_all add: fits_def)
  moreover have "0 < length R" using assms(2) by simp
  ultimately show ?thesis
    by (simp add: validate_signal_def selector_shape_def has_shape_nrows has_shape_ncols)
qed

lemma assign_signal_tags:
  "assign_signal c ''pos_ref'' s sel =
     and_then (assign_to (pos_ref c) s sel) (\<lambda>b. Inr (True, c\<lparr> pos_ref := b \<rparr>))"
  "assign_signal c ''vel_ref'' s sel =
     and_then (assign_to (vel_ref c) s sel) (\<lambda>b. Inr (True, c\<lparr> vel_ref := b \<rparr>))"
  "assign_signal c ''eff_ref'' s sel =
     and_then (assign_to (eff_ref c) s sel) (\<lambda>b. Inr (True, c\<lparr> eff_ref := b \<rparr>))"
  "assign_signal c ''pos'' s sel =
     and_then (assign_to (pos c) s sel) (\<lambda>b. Inr (True, c\<lparr> pos := b \<rparr>))"
  "assign_signal c ''vel'' s sel =
     and_then (assign_to (vel c) s sel) (\<lambda>b. Inr (True, c\<lparr> vel := b \<rparr>))"
  "assign_signal c ''eff'' s sel =
     and_then (assign_to (eff c) s sel) (\<lambda>b. Inr (True, c\<lparr> eff := b \<rparr>))"
  "assign_signal c ''pgain'' s sel =
     and_then (assign_to (pos_gains c) s sel) (\<lambda>b. Inr (True, c\<lparr> pos_gains := b \<rparr>))"
  "assign_signal c ''vgain'' s sel =
     and_then (assign_to (vel_gains c) s sel) (\<lambda>b. Inr (True, c\<lparr> vel_gains := b \<rparr>))"
  by (simp_all add: assign_signal_def valid_signal_types_def)

lemma assign_to_scoped:
  assumes "has_shape n m buf"
      and "R \<noteq> []" "in_range n R" "distinct R" "in_range m J" "distinct J"
      and "has_shape (length R) (length J) (s_data s)"
  shows "\<exists>new. assign_to buf s (Some (R, J)) = Inr new \<and>
           scoped_write n m R J (Some s) buf new"
  using index_put_scoped[OF assms] by (simp add: assign_to_def scoped_write_def)

lemma signal_block_scoped:
  assumes asg: "\<And>s. assign_signal c ty s (Some (R, J)) =
                  and_then (assign_to (get c) s (Some (R, J))) (\<lambda>b. Inr (True, put c b))"
      and same: "put c (get c) = c"
      and buf: "has_shape (num_robots c) (n_dofs c) (get c)"
      and R: "R \<noteq> []" "in_range (num_robots c) R" "distinct R"
      and J: "in_range (n_dofs c) J" "distinct J"
      and sig: "fits c R J sig"
  shows "\<exists>new. signal_block ty k ka sig (Some (R, J)) (fl, c) = Inr (fl, put c new) \<and>
           scoped_write (num_robots c) (n_dofs c) R J sig (get c) new"
proof (cases sig)
  case None
  then show ?thesis using same by (simp add: signal_block_def scoped_write_def)
next
  case (Some s)
  have v: "validate_signal c (Some s) (Some (R, J)) = Inr True"
    using sig R(1) unfolding Some by (rule validate_signal_fits)
  have "has_shape (length R) (length J) (s_data s)" using sig Some by (simp add: fits_def)
  from assign_to_scoped[OF buf R J this] obtain new where
    new: "assign_to (get c) s (Some (R, J)) = Inr new"
         "scoped_write (num_robots c) (n_dofs c) R J (Some s) (get c) new"
    by blast
  have "signal_block ty k ka sig (Some (R, J)) (fl, c) = Inr (fl, put c new)"
    using v new(1) asg Some by (simp add: signal_block_def)
  then show ?thesis using new(2) Some by blast
qed

lemma valid_subsetD:
  assumes "valid_subset dev bound t"
  shows "i_vals t \<noteq> []" "in_range bound (i_vals t)" "distinct (i_vals t)"
  using assms by (simp_all add: valid_subset_def)

lemma fits_device:
  "c_device c' = c_device c \<Longrightarrow> fits c' R J sig = fits c R J sig"
  by (cases sig) (simp_all add: fits_def)

lemma set_refs_scoped:
  assumes bs: "buffers_shaped c"
      and vr: "valid_subset (c_device c) (num_robots c) ri"
      and vj: "valid_subset (c_device c) (n_dofs c) ji"
      and fe: "fits c (i_vals ri) (i_vals ji) e"
      and fp: "fits c (i_vals ri) (i_vals ji) p"
      and fv: "fits c (i_vals ri) (i_vals ji) v"
  shows "\<exists>E P V. set_refs c e p v (Some ri) (Some ji) =
                    Inr ([True, True, True, True], c\<lparr> eff_ref := E, pos_ref := P, vel_ref := V \<rparr>) \<and>
           scoped_write (num_robots c) (n_dofs c) (i_vals ri) (i_vals ji) e (eff_ref c) E \<and>
           scoped_write (num_robots c) (n_dofs c) (i_vals ri) (i_vals ji) p (pos_ref c) P \<and>
           scoped_write (num_robots c) (n_dofs c) (i_vals ri) (i_vals ji) v (vel_ref c) V"
proof -
  let ?R = "i_vals ri" and ?J = "i_vals ji"
  let ?fl = "[True, True, True, True]"
  note R = valid_subsetD[OF vr] and J = valid_subsetD(2,3)[OF vj]
  have sh: "has_shape (num_robots c) (n_dofs c) (eff_ref c)"
           "has_shape (num_robots c) (n_dofs c) (pos_ref c)"
           "has_shape (num_robots c) (n_dofs c) (vel_ref c)"
    using bs by (simp_all add: buffers_shaped_def)
  from signal_block_scoped[where get = eff_ref and put = "\<lambda>c b. c\<lparr> eff_ref := b \<rparr>" and c = c,
        OF assign_signal_tags(3) _ sh(1) R J fe, of 0 3 ?fl]
  obtain E where
    E: "signal_block ''eff_ref'' 0 3 e (Some (?R, ?J)) (?fl, c) = Inr (?fl, c\<lparr> eff_ref := E \<rparr>)"
       "scoped_write (num_robots c) (n_dofs c) ?R ?J e (eff_ref c) E"
    by auto
  let ?c1 = "c\<lparr> eff_ref := E \<rparr>"
  have sh1: "has_shape (num_robots ?c1) (n_dofs ?c1) (pos_ref ?c1)" using sh(2) by simp
  have R1: "in_range (num_robots ?c1) ?R" and J1: "in_range (n_dofs ?c1) ?J"
    using R(2) J(1) by simp_all
  have fp1: "fits ?c1 ?R ?J p" using fp fits_device[of ?c1 c ?R ?J p] by simp
  from signal_block_scoped[where get = pos_ref and put = "\<lambda>c b. c\<lparr> pos_ref := b \<rparr>" and c = ?c1,
        OF assign_signal_tags(1) _ sh1 R(1) R1 R(3) J1 J(2) fp1, of 1 3 ?fl]
  obtain P where
    P: "signal_block ''pos_ref'' 1 3 p (Some (?R, ?J)) (?fl, ?c1) = Inr (?fl, ?c1\<lparr> pos_ref := P \<rparr>)"
       "scoped_write (num_robots c) (n_dofs c) ?R ?J p (pos_ref c) P"
    by auto
  let ?c2 = "?c1\<lparr> pos_ref := P \<rparr>"
  have sh2: "has_shape (num_robots ?c2) (n_dofs ?c2) (vel_ref ?c2)" using sh(3) by simp
  have R2: "in_range (num_robots ?c2) ?R" and J2: "in_range (n_dofs ?c2) ?J"
    using R(2) J(1) by simp_all
  have fv2: "fits ?c2 ?R ?J v" using fv fits_device[of ?c2 c ?R ?J v] by simp
  from signal_block_scoped[where get = vel_ref and put = "\<lambda>c b. c\<lparr> vel_ref := b \<rparr>" and c = ?c2,
        OF assign_signal_tags(2) _ sh2 R(1) R2 R(3) J2 J(2) fv2, of 2 3 ?fl]
  obtain V where
    V: "signal_block ''vel_ref'' 2 3 v (Some (?R, ?J)) (?fl, ?c2) = Inr (?fl, ?c2\<lparr> vel_ref := V \<rparr>)"
       "scoped_write (num_robots c) (n_dofs c) ?R ?J v (vel_ref c) V"
    by auto
  have "set_refs c e p v (Some ri) (Some ji) = Inr (?fl, c\<lparr> eff_ref := E, pos_ref := P, vel_ref := V \<rparr>)"
    using gen_selector_valid[OF vr vj] E(1) P(1) V(1) by (simp add: set_refs_def)
  then show ?thesis using E(2) P(2) V(2) by blast
qed

lemma update_state_scoped:
  assumes bs: "buffers_shaped c"
      and vr: "valid_subset (c_device c) (num_robots c) ri"
      and vj: "valid_subset (c_device c) (n_dofs c) ji"
      and fp: "fits c (i_vals ri) (i_vals ji) p"
      and fv: "fits c (i_vals ri) (i_vals ji) v"
      and fe: "fits c (i_vals ri) (i_vals ji) e"
  shows "\<exists>P V E. update_state c p v e (Some ri) (Some ji) =
                    Inr ([True, True, True, True], c\<lparr> pos := P, vel := V, eff := E \<rparr>) \<and>
           scoped_write (num_robots c) (n_dofs c) (i_vals ri) (i_vals ji) p (pos c) P \<and>
           scoped_write (num_robots c) (n_dofs c) (i_vals ri) (i_vals ji) v (vel c) V \<and>
           scoped_write (num_robots c) (n_dofs c) (i_vals ri) (i_vals ji) e (eff c) E"
proof -
  let ?R = "i_vals ri" and ?J = "i_vals ji"
  let ?fl = "[True, True, True, True]"
  note R = valid_subsetD[OF vr] and J = valid_subsetD(2,3)[OF vj]
  have sh: "has_shape (num_robots c) (n_dofs c) (pos c)"
           "has_shape (num_robots c) (n_dofs c) (vel c)"
           "has_shape (num_robots c) (n_dofs c) (eff c)"
    using bs by (simp_all add: buffers_shaped_def)
  from signal_block_scoped[where get = pos and put = "\<lambda>c b. c\<lparr> pos := b \<rparr>" and c = c,
        OF assign_signal_tags(4) _ sh(1) R J fp, of 0 3 ?fl]
  obtain P where
    P: "signal_block ''pos'' 0 3 p (Some (?R, ?J)) (?fl, c) = Inr (?fl, c\<lparr> pos := P \<rparr>)"
       "scoped_write (num_robots c) (n_dofs c) ?R ?J p (pos c) P"
    by auto
  let ?c1 = "c\<lparr> pos := P \<rparr>"
  have sh1: "has_shape (num_robots ?c1) (n_dofs ?c1) (vel ?c1)" using sh(2) by simp
  have R1: "in_range (num_robots ?c1) ?R" and J1: "in_range (n_dofs ?c1) ?J"
    using R(2) J(1) by simp_all
  have fv1: "fits ?c1 ?R ?J v" using fv fits_device[of ?c1 c ?R ?J v] by simp
  from signal_block_scoped[where get = vel and put = "\<lambda>c b. c\<lparr> vel := b \<rparr>" and c = ?c1,
        OF assign_signal_tags(5) _ sh1 R(1) R1 R(3) J1 J(2) fv1, of 1 3 ?fl]
  obtain V where
    V: "signal_block ''vel'' 1 3 v (Some (?R, ?J)) (?fl, ?c1) = Inr (?fl, ?c1\<lparr> vel := V \<rparr>)"
       "scoped_write (num_robots c) (n_dofs c) ?R ?J v (vel c) V"
    by auto
  let ?c2 = "?c1\<lparr> vel := V \<rparr>"
  have sh2: "has_shape (num_robots ?c2) (n_dofs ?c2) (eff ?c2)" using sh(3) by simp
  have R2: "in_range (num_robots ?c2) ?R" and J2: "in_range (n_dofs ?c2) ?J"
    using R(2) J(1) by simp_all
  have fe2: "fits ?c2 ?R ?J e" using fe fits_device[of ?c2 c ?R ?J e] by simp
  from signal_block_scoped[where get = eff and put = "\<lambda>c b. c\<lparr> eff := b \<rparr>" and c = ?c2,
        OF assign_signal_tags(6) _ sh2 R(1) R2 R(3) J2 J(2) fe2, of 2 3 ?fl]
  obtain E where
    E: "signal_block ''eff'' 2 3 e (Some (?R, ?J)) (?fl, ?c2) = Inr (?fl, ?c2\<lparr> eff := E \<rparr>)"
       "scoped_write (num_robots c) (n_dofs c) ?R ?J e (eff c) E"
    by auto
  have "update_state c p v e (Some ri) (Some ji) = Inr (?fl, c\<lparr> pos := P, vel := V, eff := E \<rparr>)"
    using gen_selector_valid[OF vr vj] P(1) V(1) E(1) by (simp add: update_state_def)
  then show ?thesis using P(2) V(2) E(2) by blast
qed

lemma validate_signal_upd:
  "validate_signal (c\<lparr> pos_gains := x \<rparr>) sig sel = validate_signal c sig sel"
  "validate_signal (c\<lparr> articulation_view := y \<rparr>) sig sel = validate_signal c sig sel"
  by (simp_all add: validate_signal_def split: option.splits)

lemma set_gains_scoped:
  assumes bs: "buffers_shaped c"
      and vr: "valid_subset (c_device c) (num_robots c) ri"
      and vj: "valid_subset (c_device c) (n_dofs c) ji"
      and fp: "fits c (i_vals ri) (i_vals ji) (Some pg)"
      and fv: "fits c (i_vals ri) (i_vals ji) vg"
  shows "\<exists>PG VG. set_gains c (Some pg) vg (Some ri) (Some ji) =
                    Inr ([True, True, True],
                         c\<lparr> pos_gains := PG, vel_gains := VG,
                            articulation_view := articulation_view c @
                              (if override_art_controller c then []
                               else SetGains (Some PG) None #
                                    (case vg of None \<Rightarrow> []
                                     | Some x \<Rightarrow> [SetGains None (Some VG)])) \<rparr>) \<and>
           scoped_write (num_robots c) (n_dofs c) (i_vals ri) (i_vals ji) (Some pg) (pos_gains c) PG \<and>
           scoped_write (num_robots c) (n_dofs c) (i_vals ri) (i_vals ji) vg (vel_gains c) VG"
proof -
  let ?R = "i_vals ri" and ?J = "i_vals ji"
  let ?n = "num_robots c" and ?m = "n_dofs c"
  note R = valid_subsetD[OF vr] and J = valid_subsetD(2,3)[OF vj]
  have sh: "has_shape ?n ?m (pos_gains c)" "has_shape ?n ?m (vel_gains c)"
    using bs by (simp_all add: buffers_shaped_def)
  have v1: "validate_signal c (Some pg) (Some (?R, ?J)) = Inr True"
    using fp R(1) by (rule validate_signal_fits)
  have pgs: "has_shape (length ?R) (length ?J) (s_data pg)" using fp by (simp add: fits_def)
  from assign_to_scoped[OF sh(1) R J pgs] obtain PG where
    PG: "assign_to (pos_gains c) pg (Some (?R, ?J)) = Inr PG"
        "scoped_write ?n ?m ?R ?J (Some pg) (pos_gains c) PG"
    by blast
  show ?thesis
  proof (cases vg)
    case None
    have "set_gains c (Some pg) vg (Some ri) (Some ji) =
            Inr ([True, True, True],
                 c\<lparr> pos_gains := PG, vel_gains := vel_gains c,
                    articulation_view := articulation_view c @
                      (if override_art_controller c then []
                       else SetGains (Some PG) None #
                            (case vg of None \<Rightarrow> [] | Some x \<Rightarrow> [SetGains None (Some (vel_gains c))])) \<rparr>)"
      using gen_selector_valid[OF vr vj] v1 PG(1) None
      by (simp add: set_gains_def assign_signal_tags art_call_def)
    moreover have "scoped_write ?n ?m ?R ?J vg (vel_gains c) (vel_gains c)"
      using None by (simp add: scoped_write_def)
    ultimately show ?thesis using PG(2) by blast
  next
    case (Some s)
    have vs: "has_shape (length ?R) (length ?J) (s_data s)" using fv Some by (simp add: fits_def)
    from assign_to_scoped[OF sh(2) R J vs] obtain VG where
      VG: "assign_to (vel_gains c) s (Some (?R, ?J)) = Inr VG"
          "scoped_write ?n ?m ?R ?J (Some s) (vel_gains c) VG"
      by blast
    have "set_gains c (Some pg) vg (Some ri) (Some ji) =
            Inr ([True, True, True],
                 c\<lparr> pos_gains := PG, vel_gains := VG,
                    articulation_view := articulation_view c @
                      (if override_art_controller c then []
                       else SetGains (Some PG) None #
                            (case vg of None \<Rightarrow> [] | Some x \<Rightarrow> [SetGains None (Some VG)])) \<rparr>)"
      using gen_selector_valid[OF vr vj] v1 PG(1) VG(1) Some
      by (simp add: set_gains_def assign_signal_tags art_call_def validate_signal_upd)
    then show ?thesis using PG(2) VG(2) Some by blast
  qed
qed

lemma valid_signal_type_cases:
  assumes "ty \<in> set valid_signal_types"
  obtains "ty = ''pos_ref''" | "ty = ''vel_ref''" | "ty = ''eff_ref''"
    | "ty = ''pos''" | "ty = ''vel''" | "ty = ''eff''" | "ty = ''pgain''" | "ty = ''vgain''"
proof -
  have "ty = ''pos_ref'' \<or> ty = ''vel_ref'' \<or> ty = ''eff_ref'' \<or> ty = ''pos'' \<or>
        ty = ''vel'' \<or> ty = ''eff'' \<or> ty = ''pgain'' \<or> ty = ''vgain''"
    using assms unfolding valid_signal_types_def
    by (simp only: set_simps insert_iff empty_iff disj_assoc simp_thms)
  then show thesis by (elim disjE) (erule that)+
qed

lemma buffer_of_tags:
  "buffer_of ''pos_ref'' c = pos_ref c"
  "buffer_of ''vel_ref'' c = vel_ref c"
  "buffer_of ''eff_ref'' c = eff_ref c"
  "buffer_of ''pos'' c = pos c"
  "buffer_of ''vel'' c = vel c"
  "buffer_of ''eff'' c = eff c"
  "buffer_of ''pgain'' c = pos_gains c"
  "buffer_of ''vgain'' c = vel_gains c"
  by (simp_all add: buffer_of_def)

lemma buffer_of_shaped:
  assumes "buffers_shaped c" "ty \<in> set valid_signal_types"
  shows "has_shape (num_robots c) (n_dofs c) (buffer_of ty c)"
  using assms(2)
proof (cases rule: valid_signal_type_cases)
qed (insert assms(1), simp_all add: buffers_shaped_def buffer_of_tags)

lemma assign_signal_buffer_of:
  assumes "ty \<in> set valid_signal_types"
      and "assign_to (buffer_of ty c) s sel = Inr new"
  shows "\<exists>c'. assign_signal c ty s sel = Inr (True, c') \<and> buffer_of ty c' = new \<and>
           (\<forall>ty'. ty' \<noteq> ty \<longrightarrow> buffer_of ty' c' = buffer_of ty' c)"
proof -
  from assms(1) show ?thesis
  proof (cases rule: valid_signal_type_cases)
    case 1
    then show ?thesis using assms(2)
      by (intro exI[of _ "c\<lparr> pos_ref := new \<rparr>"])
         (simp add: assign_signal_tags buffer_of_def)
  next
    case 2
    then show ?thesis using assms(2)
      by (intro exI[of _ "c\<lparr> vel_ref := new \<rparr>"])
         (simp add: assign_signal_tags buffer_of_def)
  next
    case 3
    then show ?thesis using assms(2)
      by (intro exI[of _ "c\<lparr> eff_ref := new \<rparr>"])
         (simp add: assign_signal_tags buffer_of_def)
  next
    case 4
    then show ?thesis using assms(2)
      by (intro exI[of _ "c\<lparr> pos := new \<rparr>"])
         (simp add: assign_signal_tags buffer_of_def)
  next
    case 5
    then show ?thesis using assms(2)
      by (intro exI[of _ "c\<lparr> vel := new \<rparr>"])
         (simp add: assign_signal_tags buffer_of_def)
  next
    case 6
    then show ?thesis using assms(2)
      by (intro exI[of _ "c\<lparr> eff := new \<rparr>"])
         (simp add: assign_signal_tags buffer_of_def)
  next
    case 7
    then show ?thesis using assms(2)
      by (intro exI[of _ "c\<lparr> pos_gains := new \<rparr>"])
         (simp add: assign_signal_tags buffer_of_def)
  next
    case 8
    then show ?thesis using assms(2)
      by (intro exI[of _ "c\<lparr> vel_gains := new \<rparr>"])
         (simp add: assign_signal_tags buffer_of_def)
  qed
qed

lemma assign_signal_scoped:
  assumes bs: "buffers_shaped c"
      and vr: "valid_subset (c_device c) (num_robots c) ri"
      and vj: "valid_subset (c_device c) (n_dofs c) ji"
      and fs: "fits c (i_vals ri) (i_vals ji) (Some s)"
      and ty: "ty \<in> set valid_signal_types"
  shows "\<exists>c'. gen_selector c (Some ri) (Some ji) = Inr (Some (i_vals ri, i_vals ji)) \<and>
           validate_signal c (Some s) (Some (i_vals ri, i_vals ji)) = Inr True \<and>
           assign_signal c ty s (Some (i_vals ri, i_vals ji)) = Inr (True, c') \<and>
           scoped_write (num_robots c) (n_dofs c) (i_vals ri) (i_vals ji) (Some s)
             (buffer_of ty c) (buffer_of ty c') \<and>
           (\<forall>ty'. ty' \<noteq> ty \<longrightarrow> buffer_of ty' c' = buffer_of ty' c)"
proof -
  note R = valid_subsetD[OF vr] and J = valid_subsetD(2,3)[OF vj]
  have sh: "has_shape (length (i_vals ri)) (length (i_vals ji)) (s_data s)"
    using fs by (simp add: fits_def)
  from assign_to_scoped[OF buffer_of_shaped[OF bs ty] R J sh] obtain new where
    new: "assign_to (buffer_of ty c) s (Some (i_vals ri, i_vals ji)) = Inr new"
         "scoped_write (num_robots c) (n_dofs c) (i_vals ri) (i_vals ji) (Some s)
            (buffer_of ty c) new"
    by blast
  from assign_signal_buffer_of[OF ty new(1)] obtain c' where
    c': "assign_signal c ty s (Some (i_vals ri, i_vals ji)) = Inr (True, c')"
        "buffer_of ty c' = new" "\<forall>ty'. ty' \<noteq> ty \<longrightarrow> buffer_of ty' c' = buffer_of ty' c"
    by blast
  show ?thesis
    using gen_selector_valid[OF vr vj] validate_signal_fits[OF fs R(1)] c' new(2) by auto
qed

lemmas eval_defs = set_gains_def set_refs_def update_state_def signal_block_def gen_selector_def
  validate_selectors_def check_indxs_def meshgrid_def selector_shape_def validate_signal_def
  assign_signal_def valid_signal_types_def assign_to_def index_put_def expand_to_def assign_all_def
  put_cell_def norm_idx_def nrows_def ncols_def art_call_def Let_def

lemma scenario_set_gains:
  "set_gains (scenario_ctrl ov)
      (Some \<lparr> s_device = Cpu, s_data = [[5, 7]] \<rparr>) None
      (Some \<lparr> i_shape = [1], i_dtype = Int64, i_device = Cpu, i_vals = [1] \<rparr>)
      (Some \<lparr> i_shape = [2], i_dtype = Int64, i_device = Cpu, i_vals = [0, 2] \<rparr>) =
   Inr ([True, True, True],
        (scenario_ctrl ov)\<lparr> pos_gains := [[300, 300, 300], [5, 300, 7]],
           articulation_view :=
             (if ov then [] else [SetGains (Some [[300, 300, 300], [5, 300, 7]]) None]) \<rparr>)"
  by (simp add: eval_defs scenario_ctrl_def)

text \<open>
  What holds of selector-scoped writes. With a valid robot subset \<open>R\<close> and a valid joint
  subset \<open>J\<close>, and signals of shape \<open>[|R|, |J|]\<close> on the controller's device: the selector is
  built, the signal passes its validation, and for each of the eight tags \<^verbatim>\<open>_assign_signal\<close>
  leaves the signal in the cells of \<open>R \<times> J\<close> of the tag's buffer, the old content in its other
  cells, and the other seven buffers as they were. \<^verbatim>\<open>set_refs\<close> and \<^verbatim>\<open>update_state\<close>, with
  any of their signals given, and \<^verbatim>\<open>set_gains\<close>, with the position gains given, return with
  every flag true; each buffer whose signal was given holds the signal in the cells of
  \<open>R \<times> J\<close> and its old content in every other cell, and every other field of the controller
  is the old one (\<^verbatim>\<open>set_gains\<close> also records the pushes of the gains to the articulation when
  not in override mode). In the scenario, \<^verbatim>\<open>set_gains\<close> of \<open>[[5, 7]]\<close> on robot 1 and joints 0
  and 2 of a 2 by 3 buffer of 300 leaves row 0 as it was and row 1 as \<open>[5, 300, 7]\<close>.
\<close>

lemma selector_write_exact:
  assumes "buffers_shaped c"
      and "valid_subset (c_device c) (num_robots c) ri"
      and "valid_subset (c_device c) (n_dofs c) ji"
      and "fits c (i_vals ri) (i_vals ji) s1"
      and "fits c (i_vals ri) (i_vals ji) s2"
      and "fits c (i_vals ri) (i_vals ji) s3"
      and "fits c (i_vals ri) (i_vals ji) (Some pg)"
      and "fits c (i_vals ri) (i_vals ji) vg"
  shows "(\<forall>ty. ty \<in> set valid_signal_types \<longrightarrow>
            (\<exists>c'. gen_selector c (Some ri) (Some ji) = Inr (Some (i_vals ri, i_vals ji)) \<and>
               validate_signal c (Some pg) (Some (i_vals ri, i_vals ji)) = Inr True \<and>
               assign_signal c ty pg (Some (i_vals ri, i_vals ji)) = Inr (True, c') \<and>
               scoped_write (num_robots c) (n_dofs c) (i_vals ri) (i_vals ji) (Some pg)
                 (buffer_of ty c) (buffer_of ty c') \<and>
               (\<forall>ty'. ty' \<noteq> ty \<longrightarrow> buffer_of ty' c' = buffer_of ty' c))) \<and>
         (\<exists>E P V. set_refs c s1 s2 s3 (Some ri) (Some ji) =
                    Inr ([True, True, True, True], c\<lparr> eff_ref := E, pos_ref := P, vel_ref := V \<rparr>) \<and>
            scoped_write (num_robots c) (n_dofs c) (i_vals ri) (i_vals ji) s1 (eff_ref c) E \<and>
            scoped_write (num_robots c) (n_dofs c) (i_vals ri) (i_vals ji) s2 (pos_ref c) P \<and>
            scoped_write (num_robots c) (n_dofs c) (i_vals ri) (i_vals ji) s3 (vel_ref c) V) \<and>
         (\<exists>P V E. update_state c s1 s2 s3 (Some ri) (Some ji) =
                    Inr ([True, True, True, True], c\<lparr> pos := P, vel := V, eff := E \<rparr>) \<and>
            scoped_write (num_robots c) (n_dofs c) (i_vals ri) (i_vals ji) s1 (pos c) P \<and>
            scoped_write (num_robots c) (n_dofs c) (i_vals ri) (i_vals ji) s2 (vel c) V \<and>
            scoped_write (num_robots c) (n_dofs c) (i_vals ri) (i_vals ji) s3 (eff c) E) \<and>
         (\<exists>PG VG. set_gains c (Some pg) vg (Some ri) (Some ji) =
                    Inr ([True, True, True],
                         c\<lparr> pos_gains := PG, vel_gains := VG,
                            articulation_view := articulation_view c @
                              (if override_art_controller c then []
                               else SetGains (Some PG) None #
                                    (case vg of None \<Rightarrow> []
                                     | Some x \<Rightarrow> [SetGains None (Some VG)])) \<rparr>) \<and>
            scoped_write (num_robots c) (n_dofs c) (i_vals ri) (i_vals ji) (Some pg) (pos_gains c) PG \<and>
            scoped_write (num_robots c) (n_dofs c) (i_vals ri) (i_vals ji) vg (vel_gains c) VG) \<and>
         pos_gains (scenario_ctrl ov) = [[300, 300, 300], [300, 300, 300]] \<and>
         set_gains (scenario_ctrl ov)
            (Some \<lparr> s_device = Cpu, s_data = [[5, 7]] \<rparr>) None
            (Some \<lparr> i_shape = [1], i_dtype = Int64, i_device = Cpu, i_vals = [1] \<rparr>)
            (Some \<lparr> i_shape = [2], i_dtype = Int64, i_device = Cpu, i_vals = [0, 2] \<rparr>) =
          Inr ([True, True, True],
               (scenario_ctrl ov)\<lparr> pos_gains := [[300, 300, 300], [5, 300, 7]],
                  articulation_view :=
                    (if ov then [] else [SetGains (Some [[300, 300, 300], [5, 300, 7]]) None]) \<rparr>)"
proof (intro conjI allI impI)
  show "pos_gains (scenario_ctrl ov) = [[300, 300, 300], [300, 300, 300]]"
    by (simp add: scenario_ctrl_def)
next
  fix ty assume "ty \<in> set valid_signal_types"
  then show "\<exists>c'. gen_selector c (Some ri) (Some ji) = Inr (Some (i_vals ri, i_vals ji)) \<and>
               validate_signal c (Some pg) (Some (i_vals ri, i_vals ji)) = Inr True \<and>
               assign_signal c ty pg (Some (i_vals ri, i_vals ji)) = Inr (True, c') \<and>
               scoped_write (num_robots c) (n_dofs c) (i_vals ri) (i_vals ji) (Some pg)
                 (buffer_of ty c) (buffer_of ty c') \<and>
               (\<forall>ty'. ty' \<noteq> ty \<longrightarrow> buffer_of ty' c' = buffer_of ty' c)"
    by (rule assign_signal_scoped[OF assms(1-3,7)])
qed (rule set_refs_scoped[OF assms(1-6)] update_state_scoped[OF assms(1-6)]
          set_gains_scoped[OF assms(1-3,7,8)] scenario_set_gains)+

text \<open>
  C3. A setter called with a valid robot subset \<open>R\<close>, a valid joint subset \<open>J\<close> and a signal of
  shape \<open>[|R|, |J|]\<close> is to write the cells of \<open>R \<times> J\<close> of the targeted buffer and no other. The
  source does so in every form of call but one: \<^verbatim>\<open>set_gains\<close> given the velocity gains alone
  raises before any write, as under C5. On robot 1 and joints 0 and 2 of the scenario, the
  signal \<open>[[5, 7]]\<close> is written as position gains, and as velocity gains when position gains
  come with it; given as velocity gains alone the call raises \<^verbatim>\<open>AttributeError\<close>.
\<close>

theorem vel_gains_write_raises:
  "set_gains (scenario_ctrl False) None (Some \<lparr> s_device = Cpu, s_data = [[5, 7]] \<rparr>)
      (Some \<lparr> i_shape = [1], i_dtype = Int64, i_device = Cpu, i_vals = [1] \<rparr>)
      (Some \<lparr> i_shape = [2], i_dtype = Int64, i_device = Cpu, i_vals = [0, 2] \<rparr>) =
     Inl AttributeError \<and>
   set_gains (scenario_ctrl False)
      (Some \<lparr> s_device = Cpu, s_data = [[5, 7]] \<rparr>)
      (Some \<lparr> s_device = Cpu, s_data = [[5, 7]] \<rparr>)
      (Some \<lparr> i_shape = [1], i_dtype = Int64, i_device = Cpu, i_vals = [1] \<rparr>)
      (Some \<lparr> i_shape = [2], i_dtype = Int64, i_device = Cpu, i_vals = [0, 2] \<rparr>) =
     Inr ([True, True, True],
          (scenario_ctrl False)\<lparr>
             pos_gains := [[300, 300, 300], [5, 300, 7]],
             vel_gains := [[30, 30, 30], [5, 30, 7]],
             articulation_view :=
               [SetGains (Some [[300, 300, 300], [5, 300, 7]]) None,
                SetGains None (Some [[30, 30, 30], [5, 30, 7]])] \<rparr>)"
  by (simp add: eval_defs scenario_ctrl_def)

section \<open>The filtered command path\<close>

lemma fo_reset_ok:
  assumes "filter_inv f"
  shows "fo_reset f = Inr (f\<lparr> yk := zeros (fo_rows f) (fo_cols f), ykm1 := zeros (fo_rows f) (fo_cols f),
                            refk := zeros (fo_rows f) (fo_cols f), refkm1 := zeros (fo_rows f) (fo_cols f) \<rparr>)"
proof -
  have z: "has_shape (fo_rows f) (fo_cols f) (zeros (fo_rows f) (fo_cols f))" by (rule has_shape_zeros)
  have inv: "has_shape (fo_rows f) (fo_cols f) (yk f)" "has_shape (fo_rows f) (fo_cols f) (ykm1 f)"
            "has_shape (fo_rows f) (fo_cols f) (refk f)" "has_shape (fo_rows f) (fo_cols f) (refkm1 f)"
    using assms by (simp_all add: filter_inv_def)
  show ?thesis
    by (simp add: fo_reset_def assign_all_same[OF inv(1) z] assign_all_same[OF inv(2) z]
        assign_all_same[OF inv(3) z] assign_all_same[OF inv(4) z])
qed

lemma fo_init_fields:
  assumes "FirstOrderFilter dt bw rows cols dev = Inr f"
  shows "fo_rows f = rows" "fo_cols f = cols" "yk f = zeros rows cols" "ykm1 f = zeros rows cols"
        "refk f = zeros rows cols" "refkm1 f = zeros rows cols"
  using assms by (auto simp add: FirstOrderFilter_def Let_def split: if_splits)

lemma fo_reset_init:
  assumes "FirstOrderFilter dt bw rows cols dev = Inr f"
  shows "fo_reset f = Inr f"
  using fo_reset_ok[OF filter_inv_init[OF assms]] fo_init_fields[OF assms] by simp

lemma apply_cmds_filtered_raises:
  assumes "bank_ready c"
  shows "apply_cmds c True = Inl AttributeError"
proof -
  from assms obtain pf vf ef where
    f: "pos_ref_filter c = Some pf" "vel_ref_filter c = Some vf" "eff_ref_filter c = Some ef"
    by (auto simp add: bank_ready_def split: option.splits)
  have a: "filter_available c" using assms by (simp add: bank_ready_def)
  have i: "filter_inv pf" "has_shape (fo_rows pf) (fo_cols pf) (pos_ref c)"
          "filter_inv vf" "has_shape (fo_rows vf) (fo_cols vf) (vel_ref c)"
          "filter_inv ef" "has_shape (fo_rows ef) (fo_cols ef) (eff_ref c)"
    using assms f by (simp_all add: bank_ready_def)
  show ?thesis
    using a f
    by (simp add: apply_cmds_def Let_def initialize_gains_def initialize_refs_def art_call_def
        filter_attr_def vel_ref_filter_attr_def fo_update_Some[OF i(1,2)] fo_update_Some[OF i(3,4)]
        fo_update_Some[OF i(5,6)])
qed

lemma constructed_bank_ready:
  assumes "OmniJntImpCntrl art pg vg dev bw (Some dt) ov ioc = Inr c"
  shows "bank_ready c"
proof -
  have ini: "initialized art" using assms by (auto simp add: OmniJntImpCntrl_def split: if_splits)
  obtain f where f: "FirstOrderFilter dt bw (count art) (num_dof art) dev = Inr f"
    using assms ini
    by (cases "FirstOrderFilter dt bw (count art) (num_dof art) dev")
       (auto simp add: OmniJntImpCntrl_def new_filter_def Let_def)
  note r = fo_reset_init[OF f] and inv = filter_inv_init[OF f] and fl = fo_init_fields(1,2)[OF f]
  have z: "has_shape (fo_rows f) (fo_cols f) (zeros (count art) (num_dof art))"
    using fl by (simp add: has_shape_zeros)
  show ?thesis
    using assms ini f r inv z
    by (cases ioc)
       (auto simp add: OmniJntImpCntrl_def new_filter_def Let_def reset_def bank_ready_def
          initialize_gains_def initialize_refs_def art_call_def)
qed

lemma constructed_filtered_raises:
  assumes "OmniJntImpCntrl art pg vg dev bw (Some dt) ov ioc = Inr c"
  shows "apply_cmds c True = Inl AttributeError"
  using assms by (intro apply_cmds_filtered_raises constructed_bank_ready)

lemma constructor_returns:
  assumes "initialized art" "1 + 2 * pi * bw * dt / 2 \<noteq> 0"
  shows "\<exists>c. OmniJntImpCntrl art pg vg dev bw (Some dt) ov ioc = Inr c"
proof -
  obtain f where f: "FirstOrderFilter dt bw (count art) (num_dof art) dev = Inr f"
    using assms(2) by (simp add: FirstOrderFilter_def Let_def)
  show ?thesis
    using assms(1) f fo_reset_init[OF f]
    by (simp add: OmniJntImpCntrl_def new_filter_def Let_def reset_def)
qed

text \<open>
  C6. With a filter bank, \<^verbatim>\<open>apply_cmds\<close> with filtering is to pass the three reference buffers
  through their filters, issue the command computed from the filtered references, and return.
  The source does not: after the three filter updates both branches read
  \<^verbatim>\<open>self.vel_ref_filter\<close>, an attribute that is never assigned, and the call ends in
  \<^verbatim>\<open>AttributeError\<close>. This holds for every controller the constructor returns with a filter
  period; it is shown here for the scenario's articulation with period 1/100, in override mode
  and out of it.
\<close>

theorem apply_cmds_filter_raises:
  "(\<exists>c. OmniJntImpCntrl scenario_art 300 30 Cpu 50 (Some (1 / 100)) True False = Inr c \<and>
        apply_cmds c True = Inl AttributeError) \<and>
   (\<exists>c. OmniJntImpCntrl scenario_art 300 30 Cpu 50 (Some (1 / 100)) False False = Inr c \<and>
        apply_cmds c True = Inl AttributeError)"
proof -
  have "0 < 1 + pi / 2" using pi_gt_zero by linarith
  then have nz: "1 + 2 * pi * 50 * (1 / 100) / 2 \<noteq> 0" by simp
  have ini: "initialized scenario_art" by (simp add: scenario_art_def)
  have "\<exists>c. OmniJntImpCntrl scenario_art 300 30 Cpu 50 (Some (1 / 100)) ov False = Inr c \<and>
        apply_cmds c True = Inl AttributeError" for ov
    using constructor_returns[OF ini nz, of 300 30 Cpu ov False]
    by (auto intro: apply_cmds_filtered_raises constructed_bank_ready)
  then show ?thesis by blast
qed

section \<open>Defects of the selector-scoped setters\<close>

text \<open>
  C5. \<^verbatim>\<open>set_gains\<close> is to validate each given gains tensor and, when only \<^verbatim>\<open>vel_gains\<close> is
  given and does not fit, to clear its flag, leave the buffer and return. The source validates
  \<^verbatim>\<open>pos_gains\<close> in the block of the velocity gains; with \<^verbatim>\<open>pos_gains\<close> omitted the
  validation reads the shape of \<open>None\<close> and the call raises \<^verbatim>\<open>AttributeError\<close>, whether the
  velocity gains fit the selector, have the wrong shape or lie on the wrong device.
\<close>

theorem set_gains_vel_only_raises:
  "set_gains (scenario_ctrl False) None (Some \<lparr> s_device = Cpu, s_data = [[1, 2]] \<rparr>)
      (Some \<lparr> i_shape = [1], i_dtype = Int64, i_device = Cpu, i_vals = [1] \<rparr>)
      (Some \<lparr> i_shape = [2], i_dtype = Int64, i_device = Cpu, i_vals = [0, 2] \<rparr>) = Inl AttributeError \<and>
   set_gains (scenario_ctrl False) None (Some \<lparr> s_device = Cpu, s_data = [[1, 2, 3], [4, 5, 6]] \<rparr>)
      None None = Inl AttributeError \<and>
   set_gains (scenario_ctrl False) None (Some \<lparr> s_device = Cuda, s_data = [[1, 2, 3]] \<rparr>)
      None None = Inl AttributeError"
  by (simp add: eval_defs scenario_ctrl_def)

lemma set_gains_vel_only:
  "gen_selector c ri ji = Inr sel \<Longrightarrow> set_gains c None (Some vg) ri ji = Inl AttributeError"
  by (simp add: set_gains_def validate_signal_def)

text \<open>
  C4. A setter given an invalid index subset is to clear the flag of each given signal and leave
  every buffer as it was, whatever the signal. In the source an invalid subset yields no
  selector, which the setter reads as no selector asked for: joint indices \<open>[0, 1, 5]\<close> on three
  joints are classified invalid, and the 2 by 3 position reference given with them then passes
  the validation against the whole buffer and overwrites all of it, with every flag true.
\<close>

theorem invalid_selector_full_write:
  "validate_selectors (scenario_ctrl False) None
      (Some \<lparr> i_shape = [3], i_dtype = Int64, i_device = Cpu, i_vals = [0, 1, 5] \<rparr>) =
     Inr (NONE, INVALID) \<and>
   set_refs (scenario_ctrl False) None
      (Some \<lparr> s_device = Cpu, s_data = [[1, 2, 3], [4, 5, 6]] \<rparr>) None None
      (Some \<lparr> i_shape = [3], i_dtype = Int64, i_device = Cpu, i_vals = [0, 1, 5] \<rparr>) =
     Inr ([True, True, True, True],
          (scenario_ctrl False)\<lparr> pos_ref := [[1, 2, 3], [4, 5, 6]] \<rparr>) \<and>
   pos_ref (scenario_ctrl False) = [[0, 0, 0], [0, 0, 0]]"
  by (simp add: eval_defs scenario_ctrl_def)

text \<open>
  C10. An index subset of unique indices within bounds is classified invalid when its element
  type is not the 64-bit integer or its device is not the controller's; the write through it is
  to be refused and the flag cleared. The classification holds, and so does the refusal for every
  signal that is not of the shape of the whole buffer. With joint indices \<open>[2, 1, 0]\<close> of 32-bit
  integers and a 2 by 3 signal, the source writes the signal over the whole buffer in its own
  column order, with every flag true, where 64-bit indices would have reversed the columns.
\<close>

theorem wrong_dtype_full_write:
  "validate_selectors (scenario_ctrl False) None
      (Some \<lparr> i_shape = [3], i_dtype = Int32, i_device = Cpu, i_vals = [2, 1, 0] \<rparr>) =
     Inr (NONE, INVALID) \<and>
   set_refs (scenario_ctrl False) None
      (Some \<lparr> s_device = Cpu, s_data = [[1, 2, 3], [4, 5, 6]] \<rparr>) None None
      (Some \<lparr> i_shape = [3], i_dtype = Int32, i_device = Cpu, i_vals = [2, 1, 0] \<rparr>) =
     Inr ([True, True, True, True],
          (scenario_ctrl False)\<lparr> pos_ref := [[1, 2, 3], [4, 5, 6]] \<rparr>) \<and>
   set_refs (scenario_ctrl False) None
      (Some \<lparr> s_device = Cpu, s_data = [[1, 2, 3], [4, 5, 6]] \<rparr>) None None
      (Some \<lparr> i_shape = [3], i_dtype = Int64, i_device = Cpu, i_vals = [2, 1, 0] \<rparr>) =
     Inr ([True, True, True, True],
          (scenario_ctrl False)\<lparr> pos_ref := [[3, 2, 1], [6, 5, 4]] \<rparr>)"
  by (simp add: eval_defs scenario_ctrl_def upt_rec)

section \<open>Repeated indices\<close>

text \<open>
  C9, as stated, fails: the joint indices \<open>[0, 0]\<close>, 64-bit on the controller's device, are
  classified valid, and a selector is built from them.
\<close>

theorem duplicate_indices_counterexample:
  "validate_selectors (scenario_ctrl False) None
      (Some \<lparr> i_shape = [2], i_dtype = Int64, i_device = Cpu, i_vals = [0, 0] \<rparr>) =
     Inr (NONE, VALID) \<and>
   gen_selector (scenario_ctrl False) None
      (Some \<lparr> i_shape = [2], i_dtype = Int64, i_device = Cpu, i_vals = [0, 0] \<rparr>) =
     Inr (Some ([0, 1], [0, 0]))"
  by (simp add: eval_defs scenario_ctrl_def upt_rec)

text \<open>
  C9, amended. A one-dimensional 64-bit index tensor on the controller's device whose elements
  are non-negative and below the bound is classified valid also when an index is repeated:
  the validation has no test of uniqueness, and a selector is built from the tensor.
\<close>

theorem duplicates_pass_validation:
  assumes "length (i_shape t) = 1" and "i_dtype t = Int64" and "i_device t = c_device c"
      and "in_range bound (i_vals t)" and "\<not> distinct (i_vals t)"
  shows "check_indxs (c_device c) bound (Some t) = Inr VALID \<and>
         (bound = n_dofs c \<longrightarrow>
            validate_selectors c None (Some t) = Inr (NONE, VALID) \<and>
            gen_selector c None (Some t) = Inr (Some (map int [0..<num_robots c], i_vals t))) \<and>
         (bound = num_robots c \<longrightarrow>
            validate_selectors c (Some t) None = Inr (VALID, NONE) \<and>
            gen_selector c (Some t) None = Inr (Some (i_vals t, map int [0..<n_dofs c])))"
proof -
  have ne: "i_vals t \<noteq> []" using assms(5) by auto
  have v: "check_indxs (c_device c) bound (Some t) = Inr VALID"
    using assms(1-4) by (simp add: check_indxs_Some[OF ne])
  have n: "check_indxs (c_device c) b None = Inr NONE" for b by (simp add: check_indxs_def)
  show ?thesis
    using v n by (auto simp add: validate_selectors_def gen_selector_def meshgrid_def Let_def)
qed

theorem duplicates_pass_validation_witness:
  "length (i_shape \<lparr> i_shape = [2], i_dtype = Int64, i_device = Cpu, i_vals = [0, 0] \<rparr>) = 1 \<and>
   i_dtype \<lparr> i_shape = [2], i_dtype = Int64, i_device = Cpu, i_vals = [0, 0] \<rparr> = Int64 \<and>
   i_device \<lparr> i_shape = [2], i_dtype = Int64, i_device = Cpu, i_vals = [0, 0] \<rparr>
     = c_device (scenario_ctrl False) \<and>
   in_range 3 (i_vals \<lparr> i_shape = [2], i_dtype = Int64, i_device = Cpu, i_vals = [0, 0] \<rparr>) \<and>
   \<not> distinct (i_vals \<lparr> i_shape = [2], i_dtype = Int64, i_device = Cpu, i_vals = [0, 0] \<rparr>) \<and>
   3 = n_dofs (scenario_ctrl False) \<and>
   check_indxs (c_device (scenario_ctrl False)) 3
     (Some \<lparr> i_shape = [2], i_dtype = Int64, i_device = Cpu, i_vals = [0, 0] \<rparr>) = Inr VALID \<and>
   validate_selectors (scenario_ctrl False) None
     (Some \<lparr> i_shape = [2], i_dtype = Int64, i_device = Cpu, i_vals = [0, 0] \<rparr>) = Inr (NONE, VALID)"
proof -
  let ?t = "\<lparr> i_shape = [2], i_dtype = Int64, i_device = Cpu, i_vals = [0, 0] \<rparr>"
  let ?c = "scenario_ctrl False"
  have h1: "length (i_shape ?t) = 1" by simp
  have h2: "i_dtype ?t = Int64" by simp
  have h3: "i_device ?t = c_device ?c" by (simp add: scenario_ctrl_def)
  have h4: "in_range 3 (i_vals ?t)" by (simp add: in_range_def)
  have h5: "\<not> distinct (i_vals ?t)" by simp
  have h6: "3 = n_dofs ?c" by (simp add: scenario_ctrl_def)
  from duplicates_pass_validation[OF h1 h2 h3 h4 h5] h1 h2 h3 h4 h5 h6 show ?thesis by blast
qed

section \<open>What the setters refuse\<close>

lemma check_indxs_dtype_device:
  assumes "i_vals t \<noteq> []" and "i_dtype t \<noteq> Int64 \<or> i_device t \<noteq> dev"
  shows "check_indxs dev bound (Some t) = Inr INVALID"
  using assms by (auto simp add: check_indxs_Some)

lemma signal_block_refused:
  assumes "not_full c sig"
  shows "signal_block ty k ka sig None (fl, c) =
           Inr (if sig = None then fl else fl[k := False], c)"
  using assms by (cases sig) (auto simp add: signal_block_def validate_signal_def not_full_def)

lemma setters_refuse_without_selector:
  assumes "gen_selector c ri ji = Inr None"
      and "not_full c s1" "not_full c s2" "not_full c s3"
  shows "set_refs c s1 s2 s3 ri ji = Inr ([s1 = None, s2 = None, s3 = None, True], c)"
    and "update_state c s1 s2 s3 ri ji = Inr ([s1 = None, s2 = None, s3 = None, True], c)"
    and "s1 \<noteq> None \<Longrightarrow> set_gains c s1 s2 ri ji = Inr ([False, s2 = None, True], c)"
proof -
  show "set_refs c s1 s2 s3 ri ji = Inr ([s1 = None, s2 = None, s3 = None, True], c)"
    using assms by (simp add: set_refs_def signal_block_refused)
  show "update_state c s1 s2 s3 ri ji = Inr ([s1 = None, s2 = None, s3 = None, True], c)"
    using assms by (simp add: update_state_def signal_block_refused)
  show "s1 \<noteq> None \<Longrightarrow> set_gains c s1 s2 ri ji = Inr ([False, s2 = None, True], c)"
    using assms(1,2) by (cases s2) (auto simp add: set_gains_def validate_signal_def not_full_def)
qed

section \<open>The homing buffer\<close>

lemma fill_homing_map_fold:
  "map_of (fold (\<lambda>joint m. AList.update (fst joint) (snd joint) m) joints acc) =
     map_of acc ++ map_of (rev joints)"
proof (induction joints arbitrary: acc)
  case Nil
  then show ?case by simp
next
  case (Cons j js)
  have "map_of (fold (\<lambda>joint m. AList.update (fst joint) (snd joint) m) (j # js) acc) =
          map_of (AList.update (fst j) (snd j) acc) ++ map_of (rev js)"
    using Cons.IH[of "AList.update (fst j) (snd j) acc"] by simp
  also have "\<dots> = map_of acc ++ map_of (rev (j # js))"
    by (cases j) (auto simp add: fun_eq_iff map_add_def AList.update_conv' split: option.splits)
  finally show ?case .
qed

lemma map_of_fill_homing_map: "map_of (fill_homing_map joints) = map_of (rev joints)"
  by (simp add: fill_homing_map_def fill_homing_map_fold)

lemma keys_fold_update:
  "fst ` set (fold (\<lambda>joint m. AList.update (fst joint) (snd joint) m) joints acc) =
     fst ` set acc \<union> fst ` set joints"
  by (induction joints arbitrary: acc) (auto simp add: AList.dom_update)

lemma keys_fill_homing_map: "fst ` set (fill_homing_map joints) = fst ` set joints"
  by (simp add: fill_homing_map_def keys_fold_update)

lemma fill_joint_idx_map_fold:
  assumes "\<forall>i\<in>set idxs. i < length names"
  shows "fill_joint_idx_map names idxs m =
           Inr (fold (\<lambda>i m. AList.update (names ! i) i m) idxs m)"
  using assms by (induction idxs arbitrary: m) simp_all

lemma joint_idx_map_upto:
  assumes "n \<le> length names" "distinct names"
  shows "fst ` set (fold (\<lambda>i m. AList.update (names ! i) i m) [0..<n] []) = set (take n names) \<and>
         (\<forall>k<n. map_of (fold (\<lambda>i m. AList.update (names ! i) i m) [0..<n] []) (names ! k) = Some k)"
  using assms(1)
proof (induction n)
  case 0
  then show ?case by simp
next
  case (Suc n)
  let ?m = "fold (\<lambda>i m. AList.update (names ! i) i m) [0..<n] []"
  have n: "n < length names" using Suc.prems by simp
  have IH: "fst ` set ?m = set (take n names)" "\<forall>k<n. map_of ?m (names ! k) = Some k"
    using Suc.IH n by simp_all
  have step: "fold (\<lambda>i m. AList.update (names ! i) i m) [0..<Suc n] [] = AList.update (names ! n) n ?m"
    by simp
  have keys: "fst ` set (AList.update (names ! n) n ?m) = set (take (Suc n) names)"
    using IH(1) n by (simp add: AList.dom_update take_Suc_conv_app_nth)
  have vals: "map_of (AList.update (names ! n) n ?m) (names ! k) = Some k" if "k < Suc n" for k
  proof (cases "k = n")
    case True
    then show ?thesis by (simp add: AList.update_conv')
  next
    case False
    then have k: "k < n" using that by simp
    then have "names ! k \<noteq> names ! n"
      using assms(2) n by (simp add: nth_eq_iff_index_eq)
    then show ?thesis using IH(2) k by (simp add: AList.update_conv')
  qed
  show ?case unfolding step using keys vals by blast
qed

lemma has_shape_set_column: "has_shape r c M \<Longrightarrow> has_shape r c (set_column M idx v)"
  by (simp add: has_shape_def set_column_def list_all_length)

lemma set_column_nth:
  "has_shape r c M \<Longrightarrow> i < r \<Longrightarrow> k < c \<Longrightarrow>
     set_column M idx v ! i ! k = (if k = idx then v else M ! i ! k)"
  by (auto simp add: has_shape_def set_column_def list_all_length)

lemma full_nth: "i < r \<Longrightarrow> j < c \<Longrightarrow> full r c v ! i ! j = v"
  by (simp add: full_def)

lemma assign2homing_loop_cells:
  assumes shp: "has_shape R n (homing h)"
      and n: "n \<le> length names" and d: "distinct names"
      and keys: "fst ` set (joint_idx_map h) = set (take n names)"
      and vals: "\<forall>k<n. map_of (joint_idx_map h) (names ! k) = Some k"
      and ks: "set ks \<subseteq> fst ` set (homing_map h)"
      and known: "set ks \<subseteq> set (take n names)"
  shows "\<exists>h'. assign2homing_loop h ks = Inr h' \<and>
           has_shape R n (homing h') \<and>
           (\<forall>r<R. \<forall>k<n. homing h' ! r ! k =
              (if names ! k \<in> set ks then the (map_of (homing_map h) (names ! k))
               else homing h ! r ! k))"
  using shp keys vals ks known
proof (induction ks arbitrary: h)
  case Nil
  then show ?case by simp
next
  case (Cons joint rest)
  note shp = Cons.prems(1) and keys = Cons.prems(2) and vals = Cons.prems(3)
  have rest: "set rest \<subseteq> fst ` set (homing_map h)" "set rest \<subseteq> set (take n names)"
    using Cons.prems(4,5) by simp_all
  have "joint \<in> fst ` set (homing_map h)" using Cons.prems(4) by simp
  then obtain v where v: "map_of (homing_map h) joint = Some v"
    by (metis domD dom_map_of_conv_image_fst)
  have jk: "joint \<in> set (take n names)" using Cons.prems(5) by simp
  then have inj: "joint \<in> fst ` set (joint_idx_map h)" using keys by simp
  from jk obtain idx where idx: "idx < n" "names ! idx = joint"
    using n by (auto simp add: in_set_conv_nth)
  have gi: "dict_get (joint_idx_map h) joint = Inr idx"
    using vals idx by (auto simp add: dict_get_def)
  have gv: "dict_get (homing_map h) joint = Inr v" using v by (simp add: dict_get_def)
  let ?h = "h\<lparr> homing := set_column (homing h) idx v \<rparr>"
  have shp': "has_shape R n (homing ?h)" using shp by (simp add: has_shape_set_column)
  from Cons.IH[of ?h, OF shp'] keys vals rest obtain h' where
    h': "assign2homing_loop ?h rest = Inr h'" "has_shape R n (homing h')"
        "\<forall>r<R. \<forall>k<n. homing h' ! r ! k =
            (if names ! k \<in> set rest then the (map_of (homing_map ?h) (names ! k))
             else homing ?h ! r ! k)"
    by auto
  have run: "assign2homing_loop h (joint # rest) = Inr h'"
    using inj gi gv h'(1) by simp
  have cell: "homing h' ! r ! k =
            (if names ! k \<in> set (joint # rest) then the (map_of (homing_map h) (names ! k))
             else homing h ! r ! k)" if rk: "r < R" "k < n" for r k
  proof -
    have eq: "(names ! k = joint) = (k = idx)"
      using d n idx rk(2) by (auto simp add: nth_eq_iff_index_eq)
    have "homing ?h ! r ! k = (if k = idx then v else homing h ! r ! k)"
      using set_column_nth[OF shp rk] by simp
    then show ?thesis using h'(3) rk eq v idx(2) by auto
  qed
  show ?case using run h'(2) cell by blast
qed

lemma assign2homing_loop_unknown:
  assumes "set ks \<subseteq> fst ` set (homing_map h)"
      and "\<not> set ks \<subseteq> fst ` set (joint_idx_map h)"
  shows "assign2homing_loop h ks = Inl AttributeError"
  using assms
proof (induction ks arbitrary: h)
  case Nil
  then show ?case by simp
next
  case (Cons joint rest)
  show ?case
  proof (cases "joint \<in> fst ` set (joint_idx_map h)")
    case False
    then show ?thesis by simp
  next
    case True
    then obtain idx where gi: "dict_get (joint_idx_map h) joint = Inr idx"
      by (cases "map_of (joint_idx_map h) joint")
         (auto simp add: dict_get_def map_of_eq_None_iff)
    have "joint \<in> fst ` set (homing_map h)" using Cons.prems(1) by simp
    then obtain v where gv: "dict_get (homing_map h) joint = Inr v"
      by (cases "map_of (homing_map h) joint")
         (auto simp add: dict_get_def map_of_eq_None_iff)
    let ?h = "h\<lparr> homing := set_column (homing h) idx v \<rparr>"
    have "set rest \<subseteq> fst ` set (homing_map ?h)" using Cons.prems(1) by simp
    moreover have "\<not> set rest \<subseteq> fst ` set (joint_idx_map ?h)"
      using Cons.prems(2) True by simp
    ultimately have "assign2homing_loop ?h rest = Inl AttributeError" by (rule Cons.IH)
    then show ?thesis using True gi gv by simp
  qed
qed

text \<open>
  What holds of the homing buffer. For an initialized articulation whose joint names are
  distinct, and a list of joint entries that names joints of the articulation only, the
  constructor returns a buffer of shape \<open>[count, num_dof]\<close> that holds, in every row, the
  document's value in the column of each joint the document names (its last entry, should a
  name repeat) and 0 in the column of each joint it does not name.
\<close>

lemma homing_resolved:
  assumes "initialized art" and "num_dof art = length (dof_names art)"
      and "distinct (dof_names art)"
      and "fst ` set joints \<subseteq> set (dof_names art)"
  shows "\<exists>h. OmniRobotHomer art joints ''torch'' = Inr h \<and>
           has_shape (count art) (num_dof art) (homing h) \<and>
           (\<forall>r<count art. \<forall>k<num_dof art.
              homing h ! r ! k =
                (case map_of (rev joints) (dof_names art ! k) of Some v \<Rightarrow> v | None \<Rightarrow> 0))"
proof -
  let ?names = "dof_names art" and ?n = "num_dof art" and ?R = "count art"
  let ?jim = "fold (\<lambda>i m. AList.update (?names ! i) i m) [0..<?n] []"
  let ?h0 = "\<lparr> h_num_robots = ?R, h_n_dofs = ?n, h_jnts_names = ?names,
               joint_idx_map = ?jim, homing = full ?R ?n 0,
               homing_map = fill_homing_map joints \<rparr>"
  have le: "?n \<le> length ?names" using assms(2) by simp
  have fj: "fill_joint_idx_map ?names [0..<?n] [] = Inr ?jim"
    using assms(2) by (intro fill_joint_idx_map_fold) simp
  note jm = joint_idx_map_upto[OF le assms(3)]
  have shp: "has_shape ?R ?n (homing ?h0)" by (simp add: has_shape_full)
  have keys: "fst ` set (joint_idx_map ?h0) = set (take ?n ?names)" using jm by simp
  have vals: "\<forall>k<?n. map_of (joint_idx_map ?h0) (?names ! k) = Some k" using jm by simp
  have ks: "set (map fst (homing_map ?h0)) \<subseteq> fst ` set (homing_map ?h0)" by simp
  have known: "set (map fst (homing_map ?h0)) \<subseteq> set (take ?n ?names)"
    using assms(2,4) keys_fill_homing_map[of joints] by simp
  from assign2homing_loop_cells[OF shp le assms(3) keys vals ks known] obtain h where
    h: "assign2homing_loop ?h0 (map fst (homing_map ?h0)) = Inr h"
       "has_shape ?R ?n (homing h)"
       "\<forall>r<?R. \<forall>k<?n. homing h ! r ! k =
          (if ?names ! k \<in> set (map fst (homing_map ?h0))
           then the (map_of (homing_map ?h0) (?names ! k))
           else homing ?h0 ! r ! k)"
    by blast
  have run: "OmniRobotHomer art joints ''torch'' = Inr h"
    using assms(1) fj h(1) by (simp add: OmniRobotHomer_def assign2homing_def)
  have cell: "homing h ! r ! k =
                (case map_of (rev joints) (?names ! k) of Some v \<Rightarrow> v | None \<Rightarrow> 0)"
    if rk: "r < ?R" "k < ?n" for r k
  proof (cases "map_of (rev joints) (?names ! k)")
    case None
    then have "?names ! k \<notin> fst ` set (fill_homing_map joints)"
      using map_of_fill_homing_map[of joints] by (metis map_of_eq_None_iff)
    then show ?thesis using h(3) rk None by (simp add: full_nth)
  next
    case (Some v)
    then have "map_of (fill_homing_map joints) (?names ! k) = Some v"
      by (simp add: map_of_fill_homing_map)
    moreover from this have "?names ! k \<in> fst ` set (fill_homing_map joints)"
      by (metis map_of_eq_None_iff option.distinct(1))
    ultimately show ?thesis using h(3) rk Some by simp
  qed
  show ?thesis using run h(2) cell by blast
qed

text \<open>As soon as the document names a joint that the articulation has not, the constructor raises.\<close>

lemma homing_unknown_raises:
  assumes "initialized art" and "num_dof art = length (dof_names art)"
      and "distinct (dof_names art)"
      and "\<not> fst ` set joints \<subseteq> set (dof_names art)"
  shows "OmniRobotHomer art joints ''torch'' = Inl AttributeError"
proof -
  let ?names = "dof_names art" and ?n = "num_dof art" and ?R = "count art"
  let ?jim = "fold (\<lambda>i m. AList.update (?names ! i) i m) [0..<?n] []"
  let ?h0 = "\<lparr> h_num_robots = ?R, h_n_dofs = ?n, h_jnts_names = ?names,
               joint_idx_map = ?jim, homing = full ?R ?n 0,
               homing_map = fill_homing_map joints \<rparr>"
  have le: "?n \<le> length ?names" using assms(2) by simp
  have fj: "fill_joint_idx_map ?names [0..<?n] [] = Inr ?jim"
    using assms(2) by (intro fill_joint_idx_map_fold) simp
  note jm = joint_idx_map_upto[OF le assms(3)]
  have keys: "fst ` set (joint_idx_map ?h0) = set ?names" using jm assms(2) by simp
  have ks: "set (map fst (homing_map ?h0)) \<subseteq> fst ` set (homing_map ?h0)" by simp
  have unk: "\<not> set (map fst (homing_map ?h0)) \<subseteq> fst ` set (joint_idx_map ?h0)"
    using assms(4) keys keys_fill_homing_map[of joints] by simp
  have "assign2homing_loop ?h0 (map fst (homing_map ?h0)) = Inl AttributeError"
    using ks unk by (rule assign2homing_loop_unknown)
  then show ?thesis using assms(1) fj by (simp add: OmniRobotHomer_def assign2homing_def)
qed

text \<open>
  C7. The homing buffer is to hold the document's value in the column of each joint named in
  both the document and the articulation and 0 in the other columns, and a joint that the
  document names and the articulation has not is to be skipped with a diagnostic. The source
  meets the first part: hip = 0.3 and knee = -0.6 over the joints hip, knee and wheel of two
  robots give \<open>[[0.3, -0.6, 0], [0.3, -0.6, 0]]\<close>. It does not meet the second: building the
  diagnostic reads \<^verbatim>\<open>self.journal\<close>, which is never assigned, so an entry for the unknown
  joint elbow, wherever it stands in the document, makes the constructor raise
  \<^verbatim>\<open>AttributeError\<close> and no homing buffer is returned.
\<close>

theorem homing_unknown_joint_raises:
  "OmniRobotHomer scenario_art
     [(''hip'', 3 / 10), (''elbow'', 1), (''knee'', - (6 / 10))] ''torch'' = Inl AttributeError \<and>
   OmniRobotHomer scenario_art
     [(''hip'', 3 / 10), (''knee'', - (6 / 10)), (''elbow'', 1)] ''torch'' = Inl AttributeError \<and>
   (\<exists>h. OmniRobotHomer scenario_art [(''hip'', 3 / 10), (''knee'', - (6 / 10))] ''torch'' = Inr h \<and>
        homing h = [[3 / 10, - (6 / 10), 0], [3 / 10, - (6 / 10), 0]])"
  by (simp add: OmniRobotHomer_def scenario_art_def fill_homing_map_def assign2homing_def
      dict_get_def set_column_def full_2_3 upt_rec)

section \<open>Differentiated velocities across a reset\<close>

lemma zero_all_zeros: "has_shape r c M \<Longrightarrow> zero_all M = zeros r c"
  by (rule mat_eqI[of r c])
     (simp_all add: zero_all_def has_shape_map_map has_shape_zeros nth_map_map zeros_nth)

lemma refresh_robot_reset:
  assumes s: "robot_inv n m s" and v: "view_ok n m v"
  shows "refresh_robot q2o v s (Some d) True =
           Inr (s\<lparr> root_p := world_p v, root_q := world_q v, jnts_q := joint_positions v,
                   root_v := zeros n 3, root_omega := zeros n 3, jnts_v := zeros n m,
                   root_p_prev := world_p v, root_q_prev := world_q v,
                   jnts_q_prev := joint_positions v \<rparr>)"
proof -
  have i: "has_shape n 3 (root_p s)" "has_shape n 4 (root_q s)" "has_shape n m (jnts_q s)"
          "has_shape n 3 (root_p_prev s)" "has_shape n 4 (root_q_prev s)"
          "has_shape n m (jnts_q_prev s)"
          "has_shape n 3 (root_v s)" "has_shape n 3 (root_omega s)" "has_shape n m (jnts_v s)"
    using s by (simp_all add: robot_inv_def)
  have w: "has_shape n 3 (world_p v)" "has_shape n 4 (world_q v)"
          "has_shape n m (joint_positions v)"
    using v by (simp_all add: view_ok_def)
  show ?thesis
    by (simp add: refresh_robot_def
        assign_all_same[OF i(1) w(1)] assign_all_same[OF i(2) w(2)] assign_all_same[OF i(3) w(3)]
        assign_all_same[OF i(4) w(1)] assign_all_same[OF i(5) w(2)] assign_all_same[OF i(6) w(3)]
        zero_all_zeros[OF i(7)] zero_all_zeros[OF i(8)] zero_all_zeros[OF i(9)])
qed

lemma refresh_robot_diff:
  assumes s: "robot_inv n m s" and v: "view_ok n m v" and q: "omega_shaped n q2o"
  shows "refresh_robot q2o v s (Some d) False =
           Inr (s\<lparr> root_p := world_p v, root_q := world_q v, jnts_q := joint_positions v,
                   root_v := t_div (t_sub (world_p v) (root_p_prev s)) d,
                   root_omega := q2o (world_q v) (root_q_prev s) d,
                   jnts_v := t_div (t_sub (joint_positions v) (jnts_q_prev s)) d,
                   root_p_prev := world_p v, root_q_prev := world_q v,
                   jnts_q_prev := joint_positions v \<rparr>)"
proof -
  have i: "has_shape n 3 (root_p s)" "has_shape n 4 (root_q s)" "has_shape n m (jnts_q s)"
          "has_shape n 3 (root_p_prev s)" "has_shape n 4 (root_q_prev s)"
          "has_shape n m (jnts_q_prev s)"
          "has_shape n 3 (root_v s)" "has_shape n 3 (root_omega s)" "has_shape n m (jnts_v s)"
    using s by (simp_all add: robot_inv_def)
  have w: "has_shape n 3 (world_p v)" "has_shape n 4 (world_q v)"
          "has_shape n m (joint_positions v)"
    using v by (simp_all add: view_ok_def)
  have dv: "has_shape n 3 (t_div (t_sub (world_p v) (root_p_prev s)) d)"
    using w(1) i(4) by (simp add: has_shape_t_div has_shape_t_sub)
  have dj: "has_shape n m (t_div (t_sub (joint_positions v) (jnts_q_prev s)) d)"
    using w(3) i(6) by (simp add: has_shape_t_div has_shape_t_sub)
  have om: "has_shape n 3 (q2o (world_q v) (root_q_prev s) d)"
    using q w(2) i(5) by (simp add: omega_shaped_def)
  show ?thesis
    by (simp add: refresh_robot_def
        assign_all_same[OF i(1) w(1)] assign_all_same[OF i(2) w(2)] assign_all_same[OF i(3) w(3)]
        assign_all_same[OF i(4) w(1)] assign_all_same[OF i(5) w(2)] assign_all_same[OF i(6) w(3)]
        assign_all_same[OF i(7) dv] assign_all_same[OF i(8) om] assign_all_same[OF i(9) dj])
qed

lemma get_robots_state_each:
  assumes "distinct names"
      and "\<forall>nm\<in>set names. \<exists>v s. views nm = Some v \<and> st nm = Some s \<and>
             refresh_robot q2o v s dt rt = Inr (F v s)"
  shows "\<exists>st'. get_robots_state q2o views dt rt names st = Inr st' \<and>
           (\<forall>nm\<in>set names. st' nm = Some (F (the (views nm)) (the (st nm)))) \<and>
           (\<forall>x. x \<notin> set names \<longrightarrow> st' x = st x)"
  using assms
proof (induction names arbitrary: st)
  case Nil
  then show ?case by simp
next
  case (Cons nm rest)
  from Cons.prems(2) obtain v s where
    vs: "views nm = Some v" "st nm = Some s" "refresh_robot q2o v s dt rt = Inr (F v s)"
    by auto
  let ?st1 = "st(nm \<mapsto> F v s)"
  have nm: "nm \<notin> set rest" and dr: "distinct rest" using Cons.prems(1) by simp_all
  have "\<forall>x\<in>set rest. \<exists>v s. views x = Some v \<and> ?st1 x = Some s \<and>
          refresh_robot q2o v s dt rt = Inr (F v s)"
    using Cons.prems(2) nm by auto
  from Cons.IH[OF dr this] obtain st' where
    st': "get_robots_state q2o views dt rt rest ?st1 = Inr st'"
         "\<forall>x\<in>set rest. st' x = Some (F (the (views x)) (the (?st1 x)))"
         "\<forall>x. x \<notin> set rest \<longrightarrow> st' x = ?st1 x"
    by blast
  have run: "get_robots_state q2o views dt rt (nm # rest) st = Inr st'"
    using vs st'(1) by (simp add: lookup_def)
  have each: "\<forall>x\<in>set (nm # rest). st' x = Some (F (the (views x)) (the (st x)))"
    using st'(2,3) nm vs by auto
  have frame: "\<forall>x. x \<notin> set (nm # rest) \<longrightarrow> st' x = st x"
    using st'(3) by auto
  show ?case using run each frame by blast
qed

lemma robot_inv_after_reset:
  assumes "robot_inv n m s" "view_ok n m v"
  shows "robot_inv n m
           (s\<lparr> root_p := world_p v, root_q := world_q v, jnts_q := joint_positions v,
               root_v := zeros n 3, root_omega := zeros n 3, jnts_v := zeros n m,
               root_p_prev := world_p v, root_q_prev := world_q v,
               jnts_q_prev := joint_positions v \<rparr>)"
  using assms by (simp add: robot_inv_def view_ok_def has_shape_zeros)

text \<open>
  C8. In differentiated mode (a period \<open>dt\<close> is given, not zero), for distinct robot names
  whose buffers and views have their shapes: the refresh of a reset tick returns and leaves, for
  every robot and whatever its state was, the root linear velocity, the root angular velocity
  and the joint velocities zero, and the previous position, orientation and joint position
  equal to the state just read. The refresh of the following tick, without reset, returns and
  leaves the root linear velocity and the joint velocities equal, cell by cell, to
  \<open>(x\<^sub>t - x\<^sub>t\<^sub>-\<^sub>1) / dt\<close>, and the angular velocity equal to \<^verbatim>\<open>quat_to_omega\<close> of the two
  orientations and \<open>dt\<close>, where \<open>x\<^sub>t\<^sub>-\<^sub>1\<close> is the state read at the reset tick.
\<close>

theorem differentiated_velocities:
  assumes dt: "dt \<noteq> 0" and dist: "distinct names" and om: "omega_shaped n quat_to_omega"
      and each: "\<forall>nm\<in>set names. \<exists>s v1 v2.
                   st nm = Some s \<and> robot_inv n (dofs nm) s \<and>
                   views1 nm = Some v1 \<and> view_ok n (dofs nm) v1 \<and>
                   views2 nm = Some v2 \<and> view_ok n (dofs nm) v2"
  shows "\<exists>st1 st2.
           get_robots_state quat_to_omega views1 (Some dt) True names st = Inr st1 \<and>
           get_robots_state quat_to_omega views2 (Some dt) False names st1 = Inr st2 \<and>
           (\<forall>nm\<in>set names. \<exists>s1 s2 v1 v2.
              st1 nm = Some s1 \<and> st2 nm = Some s2 \<and>
              views1 nm = Some v1 \<and> views2 nm = Some v2 \<and>
              root_v s1 = zeros n 3 \<and> root_omega s1 = zeros n 3 \<and>
              jnts_v s1 = zeros n (dofs nm) \<and>
              root_p_prev s1 = world_p v1 \<and> root_q_prev s1 = world_q v1 \<and>
              jnts_q_prev s1 = joint_positions v1 \<and>
              (\<forall>i<n. \<forall>j<3. root_v s2 ! i ! j = (world_p v2 ! i ! j - world_p v1 ! i ! j) / dt) \<and>
              (\<forall>i<n. \<forall>j<dofs nm.
                 jnts_v s2 ! i ! j =
                   (joint_positions v2 ! i ! j - joint_positions v1 ! i ! j) / dt) \<and>
              root_omega s2 = quat_to_omega (world_q v2) (world_q v1) dt)"
proof -
  let ?F1 = "\<lambda>v s. s\<lparr> root_p := world_p v, root_q := world_q v, jnts_q := joint_positions v,
                 root_v := zero_all (root_v s), root_omega := zero_all (root_omega s),
                 jnts_v := zero_all (jnts_v s),
                 root_p_prev := world_p v, root_q_prev := world_q v,
                 jnts_q_prev := joint_positions v \<rparr>"
  let ?F2 = "\<lambda>v s. s\<lparr> root_p := world_p v, root_q := world_q v, jnts_q := joint_positions v,
                 root_v := t_div (t_sub (world_p v) (root_p_prev s)) dt,
                 root_omega := quat_to_omega (world_q v) (root_q_prev s) dt,
                 jnts_v := t_div (t_sub (joint_positions v) (jnts_q_prev s)) dt,
                 root_p_prev := world_p v, root_q_prev := world_q v,
                 jnts_q_prev := joint_positions v \<rparr>"
  have F1z: "?F1 v s = s\<lparr> root_p := world_p v, root_q := world_q v, jnts_q := joint_positions v,
                 root_v := zeros n 3, root_omega := zeros n 3, jnts_v := zeros n m,
                 root_p_prev := world_p v, root_q_prev := world_q v,
                 jnts_q_prev := joint_positions v \<rparr>" if "robot_inv n m s" for v s m
    using that by (simp add: robot_inv_def zero_all_zeros)
  have a1: "\<forall>nm\<in>set names. \<exists>v s. views1 nm = Some v \<and> st nm = Some s \<and>
              refresh_robot quat_to_omega v s (Some dt) True = Inr (?F1 v s)"
  proof
    fix nm assume "nm \<in> set names"
    with each obtain s v1 where
      e: "st nm = Some s" "robot_inv n (dofs nm) s" "views1 nm = Some v1"
         "view_ok n (dofs nm) v1"
      by blast
    have "refresh_robot quat_to_omega v1 s (Some dt) True = Inr (?F1 v1 s)"
      by (simp only: refresh_robot_reset[OF e(2,4)] F1z[OF e(2)])
    then show "\<exists>v s. views1 nm = Some v \<and> st nm = Some s \<and>
              refresh_robot quat_to_omega v s (Some dt) True = Inr (?F1 v s)"
      using e(1,3) by blast
  qed
  from get_robots_state_each[where F = ?F1, OF dist a1] obtain st1 where
    st1: "get_robots_state quat_to_omega views1 (Some dt) True names st = Inr st1"
         "\<forall>nm\<in>set names. st1 nm = Some (?F1 (the (views1 nm)) (the (st nm)))"
    by blast
  have a2: "\<forall>nm\<in>set names. \<exists>v s. views2 nm = Some v \<and> st1 nm = Some s \<and>
              refresh_robot quat_to_omega v s (Some dt) False = Inr (?F2 v s)"
  proof
    fix nm assume nm: "nm \<in> set names"
    with each obtain s v1 v2 where
      e: "st nm = Some s" "robot_inv n (dofs nm) s" "views1 nm = Some v1"
         "view_ok n (dofs nm) v1" "views2 nm = Some v2" "view_ok n (dofs nm) v2"
      by blast
    have s1: "st1 nm = Some (?F1 v1 s)" using st1(2) nm e(1,3) by simp
    have "robot_inv n (dofs nm) (?F1 v1 s)"
      using robot_inv_after_reset[OF e(2,4)] by (simp only: F1z[OF e(2)])
    from refresh_robot_diff[OF this e(6) om, of dt]
    have "refresh_robot quat_to_omega v2 (?F1 v1 s) (Some dt) False = Inr (?F2 v2 (?F1 v1 s))"
      by simp
    then show "\<exists>v s. views2 nm = Some v \<and> st1 nm = Some s \<and>
              refresh_robot quat_to_omega v s (Some dt) False = Inr (?F2 v s)"
      using e(5) s1 by blast
  qed
  from get_robots_state_each[where F = ?F2, OF dist a2] obtain st2 where
    st2: "get_robots_state quat_to_omega views2 (Some dt) False names st1 = Inr st2"
         "\<forall>nm\<in>set names. st2 nm = Some (?F2 (the (views2 nm)) (the (st1 nm)))"
    by blast
  have fin: "\<exists>s1 s2 v1 v2.
              st1 nm = Some s1 \<and> st2 nm = Some s2 \<and>
              views1 nm = Some v1 \<and> views2 nm = Some v2 \<and>
              root_v s1 = zeros n 3 \<and> root_omega s1 = zeros n 3 \<and>
              jnts_v s1 = zeros n (dofs nm) \<and>
              root_p_prev s1 = world_p v1 \<and> root_q_prev s1 = world_q v1 \<and>
              jnts_q_prev s1 = joint_positions v1 \<and>
              (\<forall>i<n. \<forall>j<3. root_v s2 ! i ! j = (world_p v2 ! i ! j - world_p v1 ! i ! j) / dt) \<and>
              (\<forall>i<n. \<forall>j<dofs nm.
                 jnts_v s2 ! i ! j =
                   (joint_positions v2 ! i ! j - joint_positions v1 ! i ! j) / dt) \<and>
              root_omega s2 = quat_to_omega (world_q v2) (world_q v1) dt"
    if nm: "nm \<in> set names" for nm
  proof -
    from each nm obtain s v1 v2 where
      e: "st nm = Some s" "robot_inv n (dofs nm) s" "views1 nm = Some v1"
         "view_ok n (dofs nm) v1" "views2 nm = Some v2" "view_ok n (dofs nm) v2"
      by blast
    let ?s1 = "?F1 v1 s"
    let ?s2 = "?F2 v2 ?s1"
    have s1: "st1 nm = Some ?s1" using st1(2) nm e(1,3) by simp
    have s2: "st2 nm = Some ?s2" using st2(2) nm e(5) s1 by simp
    have z: "root_v ?s1 = zeros n 3" "root_omega ?s1 = zeros n 3" "jnts_v ?s1 = zeros n (dofs nm)"
      using e(2) by (simp_all add: robot_inv_def zero_all_zeros)
    have w: "has_shape n 3 (world_p v1)" "has_shape n 3 (world_p v2)"
            "has_shape n (dofs nm) (joint_positions v1)" "has_shape n (dofs nm) (joint_positions v2)"
      using e(4,6) by (simp_all add: view_ok_def)
    have rv: "root_v ?s2 ! i ! j = (world_p v2 ! i ! j - world_p v1 ! i ! j) / dt"
      if "i < n" "j < 3" for i j
      using that t_div_nth[OF has_shape_t_sub[OF w(2,1)] that, of dt] t_sub_nth[OF w(2,1) that]
      by simp
    have jv: "jnts_v ?s2 ! i ! j = (joint_positions v2 ! i ! j - joint_positions v1 ! i ! j) / dt"
      if "i < n" "j < dofs nm" for i j
      using that t_div_nth[OF has_shape_t_sub[OF w(4,3)] that, of dt] t_sub_nth[OF w(4,3) that]
      by simp
    have ro: "root_omega ?s2 = quat_to_omega (world_q v2) (world_q v1) dt" by simp
    have pv: "root_p_prev ?s1 = world_p v1" "root_q_prev ?s1 = world_q v1"
             "jnts_q_prev ?s1 = joint_positions v1"
      by simp_all
    show ?thesis
      using s1 s2 e(3,5) z pv rv jv ro
      by (intro exI[of _ ?s1] exI[of _ ?s2] exI[of _ v1] exI[of _ v2]) blast
  qed
  show ?thesis using st1(1) st2(1) fin by blast
qed

theorem differentiated_velocities_witness:
  "(1 / 2 :: real) \<noteq> 0 \<and> distinct [''robot''] \<and> omega_shaped 1 (\<lambda>q q' d. zeros 1 3) \<and>
   (\<exists>s v1 v2.
      [''robot'' \<mapsto> demo_state] ''robot'' = Some s \<and> robot_inv 1 1 s \<and>
      [''robot'' \<mapsto> demo_view 1] ''robot'' = Some v1 \<and> view_ok 1 1 v1 \<and>
      [''robot'' \<mapsto> demo_view 3] ''robot'' = Some v2 \<and> view_ok 1 1 v2) \<and>
   (\<exists>st1 st2 s1 s2.
      get_robots_state (\<lambda>q q' d. zeros 1 3) [''robot'' \<mapsto> demo_view 1] (Some (1 / 2)) True
        [''robot''] [''robot'' \<mapsto> demo_state] = Inr st1 \<and>
      get_robots_state (\<lambda>q q' d. zeros 1 3) [''robot'' \<mapsto> demo_view 3] (Some (1 / 2)) False
        [''robot''] st1 = Inr st2 \<and>
      st1 ''robot'' = Some s1 \<and> st2 ''robot'' = Some s2 \<and>
      root_v s1 = zeros 1 3 \<and> jnts_v s1 = zeros 1 1 \<and>
      root_v s2 ! 0 ! 0 = (3 - 1) / (1 / 2) \<and> jnts_v s2 ! 0 ! 0 = (6 - 2) / (1 / 2))"
proof -
  let ?q = "\<lambda>(q :: mat) (q' :: mat) (d :: real). zeros 1 3"
  let ?dofs = "\<lambda>x :: string. 1 :: nat"
  have h1: "(1 / 2 :: real) \<noteq> 0" by simp
  have h2: "distinct [''robot'']" by simp
  have h3: "omega_shaped 1 ?q" by (simp add: omega_shaped_def has_shape_zeros)
  have h4: "\<forall>nm\<in>set [''robot'']. \<exists>s v1 v2.
      [''robot'' \<mapsto> demo_state] nm = Some s \<and> robot_inv 1 (?dofs nm) s \<and>
      [''robot'' \<mapsto> demo_view 1] nm = Some v1 \<and> view_ok 1 (?dofs nm) v1 \<and>
      [''robot'' \<mapsto> demo_view 3] nm = Some v2 \<and> view_ok 1 (?dofs nm) v2"
    by (simp add: robot_inv_def view_ok_def demo_state_def demo_view_def has_shape_def)
  from differentiated_velocities[OF h1 h2 h3 h4] obtain st1 st2 where
    r: "get_robots_state ?q [''robot'' \<mapsto> demo_view 1] (Some (1 / 2)) True
          [''robot''] [''robot'' \<mapsto> demo_state] = Inr st1 \<and>
        get_robots_state ?q [''robot'' \<mapsto> demo_view 3] (Some (1 / 2)) False
          [''robot''] st1 = Inr st2 \<and>
        (\<forall>nm\<in>set [''robot'']. \<exists>s1 s2 v1 v2.
              st1 nm = Some s1 \<and> st2 nm = Some s2 \<and>
              [''robot'' \<mapsto> demo_view 1] nm = Some v1 \<and>
              [''robot'' \<mapsto> demo_view 3] nm = Some v2 \<and>
              root_v s1 = zeros 1 3 \<and> root_omega s1 = zeros 1 3 \<and>
              jnts_v s1 = zeros 1 1 \<and>
              root_p_prev s1 = world_p v1 \<and> root_q_prev s1 = world_q v1 \<and>
              jnts_q_prev s1 = joint_positions v1 \<and>
              (\<forall>i<1. \<forall>j<3. root_v s2 ! i ! j =
                 (world_p v2 ! i ! j - world_p v1 ! i ! j) / (1 / 2)) \<and>
              (\<forall>i<1. \<forall>j<1. jnts_v s2 ! i ! j =
                 (joint_positions v2 ! i ! j - joint_positions v1 ! i ! j) / (1 / 2)) \<and>
              root_omega s2 = zeros 1 3)"
    by (erule_tac exE, erule_tac exE) (rule that, assumption)
  note r1 = conjunct1[OF r] and r2 = conjunct1[OF conjunct2[OF r]]
    and all = conjunct2[OF conjunct2[OF r]]
  have m: "''robot'' \<in> set [''robot'']" by simp
  from bspec[OF all m] obtain s1 s2 v1 v2 where
    e: "st1 ''robot'' = Some s1 \<and> st2 ''robot'' = Some s2 \<and>
        [''robot'' \<mapsto> demo_view 1] ''robot'' = Some v1 \<and>
        [''robot'' \<mapsto> demo_view 3] ''robot'' = Some v2 \<and>
        root_v s1 = zeros 1 3 \<and> root_omega s1 = zeros 1 3 \<and>
        jnts_v s1 = zeros 1 1 \<and>
        root_p_prev s1 = world_p v1 \<and> root_q_prev s1 = world_q v1 \<and>
        jnts_q_prev s1 = joint_positions v1 \<and>
        (\<forall>i<1. \<forall>j<3. root_v s2 ! i ! j =
           (world_p v2 ! i ! j - world_p v1 ! i ! j) / (1 / 2)) \<and>
        (\<forall>i<1. \<forall>j<1. jnts_v s2 ! i ! j =
           (joint_positions v2 ! i ! j - joint_positions v1 ! i ! j) / (1 / 2)) \<and>
        root_omega s2 = zeros 1 3"
    by (elim exE) (rule that, assumption)
  have v: "v1 = demo_view 1" "v2 = demo_view 3" using e by simp_all
  have e1: "st1 ''robot'' = Some s1" and e2: "st2 ''robot'' = Some s2"
    and e5: "root_v s1 = zeros 1 3" and e6: "jnts_v s1 = zeros 1 1"
    using e by (simp_all only:)
  have c: "root_v s2 ! 0 ! 0 = (3 - 1) / (1 / 2)" "jnts_v s2 ! 0 ! 0 = (6 - 2) / (1 / 2)"
    using e by (simp_all add: v demo_view_def)
  have "\<exists>st1 st2 s1 s2.
      get_robots_state ?q [''robot'' \<mapsto> demo_view 1] (Some (1 / 2)) True
        [''robot''] [''robot'' \<mapsto> demo_state] = Inr st1 \<and>
      get_robots_state ?q [''robot'' \<mapsto> demo_view 3] (Some (1 / 2)) False
        [''robot''] st1 = Inr st2 \<and>
      st1 ''robot'' = Some s1 \<and> st2 ''robot'' = Some s2 \<and>
      root_v s1 = zeros 1 3 \<and> jnts_v s1 = zeros 1 1 \<and>
      root_v s2 ! 0 ! 0 = (3 - 1) / (1 / 2) \<and> jnts_v s2 ! 0 ! 0 = (6 - 2) / (1 / 2)"
    by (intro exI[of _ st1] exI[of _ st2] exI[of _ s1] exI[of _ s2] conjI r1 r2 e1 e2 e5 e6 c)
  moreover have "\<exists>s v1 v2.
      [''robot'' \<mapsto> demo_state] ''robot'' = Some s \<and> robot_inv 1 1 s \<and>
      [''robot'' \<mapsto> demo_view 1] ''robot'' = Some v1 \<and> view_ok 1 1 v1 \<and>
      [''robot'' \<mapsto> demo_view 3] ''robot'' = Some v2 \<and> view_ok 1 1 v2"
    using bspec[OF h4 m] .
  ultimately show ?thesis using h1 h2 h3 by (intro conjI)
qed

end
